theory Spec2Isabelle
  imports Main
begin

section \<open>The database manager of \<open>databaseManager.js\<close>\<close>

text \<open>
  The development embeds the class \<open>DatabaseManager\<close>: its connection pool, the
  statistics, \<open>connect\<close>/\<open>disconnect\<close>, \<open>query\<close> with its retry loop and \<open>transaction\<close>.

  Conventions of the embedding.
  \<^item> A connection object lives in a store (\<open>heap\<close>) under its identifier, and the pool (a
    JavaScript \<open>Map\<close> from identifier to object) is the list of its keys in insertion order.
    A handle held by a caller is the identifier: it keeps denoting the object after the pool
    has dropped the key, as the JavaScript reference does. The store is total: an identifier
    that the manager has not created denotes an object made elsewhere.
  \<^item> Identifiers are drawn from a counter (\<open>nextId\<close>); the source builds them from the clock
    and a random suffix.
  \<^item> Time is a counter of milliseconds (\<open>clock\<close>) that every awaited timer advances by its
    delay; \<open>new Date()\<close> reads it.
  \<^item> The outcome of each \<open>Math.random()\<close> test is an argument of the operation that makes it.
  \<^item> Other calls may run while a call waits. What the rest of the program does during the
    waits of a call is an argument of the call, \<open>others\<close>: \<open>others i t\<close> is what it makes of the
    state \<open>t\<close> during wait number \<open>i\<close>. The waits are numbered from 0 within the step that
    makes them: the polling waits of \<open>#getConnection\<close>, the timers of
    \<open>#executeQueryWithRetry\<close>, the timer that begins a transaction (0) and the timer that ends
    it (1). The rest of the program cannot turn the clock, nor write the log of the caller.
    \<open>connect\<close>, \<open>disconnect\<close> and the creation of a connection run without interference.
  \<^item> \<open>query\<close> and \<open>transaction\<close> are \<open>async\<close> functions: a call gives a promise. \<open>Returned\<close>
    and \<open>Thrown\<close> say how the promise settles, and a promise that never settles is the value
    \<open>None\<close>.
  \<^item> An \<open>Error\<close> object carries its message and the time at which it was created, which
    tells it from the other \<open>Error\<close> objects with the same message.
  \<^item> \<open>effects\<close> records, in order, each call of \<open>#executeQuery\<close> and of \<open>#delay\<close>; the source
    has no such field, it is the observation of the run.
  \<^item> Event listeners, console output and the host configuration are left out.
\<close>

subsection \<open>JavaScript values\<close>

datatype js_value =
    JUndefined
  | JNull
  | JBool bool
  | JNumber int
  | JString string
  | JError string nat
  | JTypeError string nat
  | JArray "js_value list"
  | JObject "(string \<times> js_value) list"

text \<open>\<open>!v\<close> of JavaScript.\<close>

fun falsy :: "js_value \<Rightarrow> bool" where
  "falsy JUndefined = True"
| "falsy JNull = True"
| "falsy (JBool b) = (\<not> b)"
| "falsy (JNumber n) = (n = 0)"
| "falsy (JString s) = (s = [])"
| "falsy (JError m t) = False"
| "falsy (JTypeError m t) = False"
| "falsy (JArray vs) = False"
| "falsy (JObject fs) = False"

fun typeof :: "js_value \<Rightarrow> string" where
  "typeof JUndefined = ''undefined''"
| "typeof JNull = ''object''"
| "typeof (JBool b) = ''boolean''"
| "typeof (JNumber n) = ''number''"
| "typeof (JString s) = ''string''"
| "typeof (JError m t) = ''object''"
| "typeof (JTypeError m t) = ''object''"
| "typeof (JArray vs) = ''object''"
| "typeof (JObject fs) = ''object''"

text \<open>How an awaited call ends: with a value, or with a thrown value.\<close>

datatype 'a outcome = Returned 'a | Thrown js_value

text \<open>
  What a call expression gives its caller at once: an exception thrown synchronously, or a
  promise. The keyword \<open>async\<close> makes every call give a promise, whatever the body does.
\<close>

datatype 'a called = ThrewSync js_value | GavePromise 'a

definition async :: "'a \<Rightarrow> 'a called" where
  "async body = GavePromise body"

fun threwSync :: "'a called \<Rightarrow> bool" where
  "threwSync (ThrewSync e) = True"
| "threwSync (GavePromise p) = False"

subsection \<open>State\<close>

type_synonym conn_id = nat

record connection =
  createdAt :: nat
  lastUsed :: nat
  inUse :: bool
  transactionActive :: "bool option"  \<comment> \<open>\<open>None\<close>: the property is absent\<close>

datatype connection_state = DISCONNECTED | CONNECTING | CONNECTED | ERROR

record statistics =
  totalQueries :: nat
  successfulQueries :: nat
  failedQueries :: nat
  activeConnections :: nat
  connectionErrors :: nat

datatype effect = ExecuteQuery conn_id js_value js_value | Delay nat

record manager =
  connectionState :: connection_state
  connectionPool :: "conn_id list"
  heap :: "conn_id \<Rightarrow> connection"
  maxConnections :: nat
  connectionTimeout :: nat
  queryTimeout :: nat
  retryAttempts :: nat
  retryDelay :: nat
  stats :: statistics
  clock :: nat
  nextId :: nat
  effects :: "effect list"

text \<open>The content of a store cell that no connection was created in.\<close>

definition blank :: connection where
  "blank = \<lparr>createdAt = 0, lastUsed = 0, inUse = False, transactionActive = None\<rparr>"

text \<open>The state the constructor builds.\<close>

definition initial :: manager where
  "initial =
     \<lparr>connectionState = DISCONNECTED, connectionPool = [], heap = (\<lambda>c. blank),
      maxConnections = 10, connectionTimeout = 30000, queryTimeout = 10000,
      retryAttempts = 3, retryDelay = 1000,
      stats = \<lparr>totalQueries = 0, successfulQueries = 0, failedQueries = 0,
               activeConnections = 0, connectionErrors = 0\<rparr>,
      clock = 0, nextId = 0, effects = []\<rparr>"

text \<open>\<open>configure\<close>, with the options already defaulted.\<close>

definition configure :: "nat \<Rightarrow> nat \<Rightarrow> nat \<Rightarrow> nat \<Rightarrow> nat \<Rightarrow> manager \<Rightarrow> manager" where
  "configure maxC connT queryT attempts delayMs s =
     s\<lparr>maxConnections := maxC, connectionTimeout := connT, queryTimeout := queryT,
       retryAttempts := attempts, retryDelay := delayMs\<rparr>"

text \<open>An awaited \<open>setTimeout\<close> of \<open>ms\<close> milliseconds.\<close>

definition setTimeout :: "nat \<Rightarrow> manager \<Rightarrow> manager" where
  "setTimeout ms s = s\<lparr>clock := clock s + ms\<rparr>"

text \<open>Assignment to fields of the connection object behind a handle.\<close>

definition modify :: "conn_id \<Rightarrow> (connection \<Rightarrow> connection) \<Rightarrow> manager \<Rightarrow> manager" where
  "modify c f s = s\<lparr>heap := (heap s)(c := f (heap s c))\<rparr>"

text \<open>\<open>!connection.inUse\<close> for the object stored under a key of the pool.\<close>

definition available :: "manager \<Rightarrow> conn_id \<Rightarrow> bool" where
  "available s c = (\<not> inUse (heap s c))"

subsection \<open>Connecting and disconnecting\<close>

definition simulateConnection :: "bool \<Rightarrow> manager \<Rightarrow> unit outcome \<times> manager" where
  "simulateConnection ok s =
     (if ok then Returned () else Thrown (JError ''Connection timeout'' (clock s + 1000)),
      setTimeout 1000 s)"

definition createConnection :: "manager \<Rightarrow> conn_id \<times> manager" where
  "createConnection s =
     (let s1 = setTimeout 100 s; c = nextId s1
      in (c, s1\<lparr>heap := (heap s1)(c :=
                  \<lparr>createdAt = clock s1, lastUsed = clock s1, inUse = False,
                   transactionActive = None\<rparr>),
               nextId := Suc c\<rparr>))"

text \<open>\<open>Map.set\<close> with the identifier as key: a new key goes last, a known key keeps its place.\<close>

definition poolSet :: "conn_id \<Rightarrow> manager \<Rightarrow> manager" where
  "poolSet c s =
     (if c \<in> set (connectionPool s) then s else s\<lparr>connectionPool := connectionPool s @ [c]\<rparr>)"

function initializeLoop :: "nat \<Rightarrow> manager \<Rightarrow> manager" where
  "initializeLoop i s =
     (if i < min 3 (maxConnections s)
      then (case createConnection s of (c, s1) \<Rightarrow> initializeLoop (Suc i) (poolSet c s1))
      else s)"
  by pat_completeness auto
termination
  by (relation "measure (\<lambda>(i, s). 3 - i)") auto

declare initializeLoop.simps [simp del]

definition initializeConnectionPool :: "manager \<Rightarrow> manager" where
  "initializeConnectionPool s =
     (let s1 = initializeLoop 0 s
      in s1\<lparr>stats := (stats s1)\<lparr>activeConnections := length (connectionPool s1)\<rparr>\<rparr>)"

definition connect :: "bool \<Rightarrow> manager \<Rightarrow> unit outcome \<times> manager" where
  "connect ok s =
     (if connectionState s = CONNECTED then (Returned (), s)
      else if connectionState s = CONNECTING then (Returned (), s)
      else
        (case simulateConnection ok (s\<lparr>connectionState := CONNECTING\<rparr>) of
           (Returned u, s1) \<Rightarrow>
             (Returned (), (initializeConnectionPool s1)\<lparr>connectionState := CONNECTED\<rparr>)
         | (Thrown e, s1) \<Rightarrow>
             (Thrown e,
              s1\<lparr>connectionState := ERROR,
                 stats := (stats s1)\<lparr>connectionErrors := Suc (connectionErrors (stats s1))\<rparr>\<rparr>)))"

definition closeConnection :: "conn_id \<Rightarrow> manager \<Rightarrow> manager" where
  "closeConnection c s = setTimeout 50 s"

text \<open>The loop of \<open>disconnect\<close> over the entries of the pool: close, then delete the key.\<close>

fun closeLoop :: "conn_id list \<Rightarrow> manager \<Rightarrow> manager" where
  "closeLoop [] s = s"
| "closeLoop (c # cs) s =
     closeLoop cs
       (let s1 = closeConnection c s in s1\<lparr>connectionPool := removeAll c (connectionPool s1)\<rparr>)"

definition disconnect :: "manager \<Rightarrow> manager" where
  "disconnect s =
     (if connectionState s = DISCONNECTED then s
      else
        (let s1 = closeLoop (connectionPool s) (s\<lparr>connectionState := DISCONNECTED\<rparr>)
         in s1\<lparr>stats := (stats s1)\<lparr>activeConnections := 0\<rparr>\<rparr>))"

subsection \<open>Acquiring and releasing\<close>

text \<open>The scan of the pool, in insertion order, for a connection that is not in use.\<close>

definition firstAvailable :: "manager \<Rightarrow> conn_id option" where
  "firstAvailable s = find (available s) (connectionPool s)"

text \<open>Marking the connection that the scan found.\<close>

definition markInUse :: "conn_id \<Rightarrow> manager \<Rightarrow> manager" where
  "markInUse c s = modify c (\<lambda>obj. obj\<lparr>inUse := True, lastUsed := clock s\<rparr>) s"

text \<open>
  \<open>checkConnection\<close>, the polling closure of \<open>#getConnection\<close>: scan the pool, return the first
  connection that is not in use, otherwise wait 100 ms and scan again. \<open>others i\<close> is what the
  rest of the program does to the state during the \<open>i\<close>-th wait.
\<close>

partial_function (option) checkConnection ::
  "(nat \<Rightarrow> manager \<Rightarrow> manager) \<Rightarrow> nat \<Rightarrow> manager \<Rightarrow> (conn_id \<times> manager) option" where
  "checkConnection others i s =
     (case firstAvailable s of
        Some c \<Rightarrow> Some (c, markInUse c s)
      | None \<Rightarrow> checkConnection others (Suc i) (others i (setTimeout 100 s)))"

declare checkConnection.simps [code]

text \<open>
  \<open>#getConnection\<close>: the scan, then the creation of a connection while the pool has room,
  then the polling wait. Its promise has no rejecting path, so the result carries no error.
\<close>

definition getConnection ::
  "(nat \<Rightarrow> manager \<Rightarrow> manager) \<Rightarrow> manager \<Rightarrow> (conn_id \<times> manager) option" where
  "getConnection others s =
     (case firstAvailable s of
        Some c \<Rightarrow> Some (c, markInUse c s)
      | None \<Rightarrow>
          if length (connectionPool s) < maxConnections s
          then (case createConnection s of
                  (c, s1) \<Rightarrow>
                    (let s2 = poolSet c (modify c (\<lambda>obj. obj\<lparr>inUse := True\<rparr>) s1)
                     in Some (c, s2\<lparr>stats := (stats s2)
                                     \<lparr>activeConnections := length (connectionPool s2)\<rparr>\<rparr>)))
          else checkConnection others 0 s)"

text \<open>
  \<open>#releaseConnection\<close>. A handle of the model always denotes an object, so the test
  \<open>connection &&\<close> of the source holds; what is left of the guard is the membership test.
\<close>

definition releaseConnection :: "conn_id \<Rightarrow> manager \<Rightarrow> manager" where
  "releaseConnection c s =
     (if c \<in> set (connectionPool s)
      then modify c (\<lambda>obj. obj\<lparr>inUse := False, lastUsed := clock s\<rparr>) s
      else s)"

subsection \<open>Queries\<close>

definition queryRows :: js_value where
  "queryRows =
     JArray [JObject [(''id'', JNumber 1), (''name'', JString ''Example Row 1'')],
             JObject [(''id'', JNumber 2), (''name'', JString ''Example Row 2'')]]"

definition queryResult :: "js_value \<Rightarrow> js_value \<Rightarrow> js_value" where
  "queryResult q ps =
     JObject [(''rows'', queryRows), (''rowCount'', JNumber 2), (''query'', q), (''params'', ps)]"

text \<open>
  What the rest of the program makes of the state during wait \<open>i\<close> of a call. Time and the
  log of the caller are not its to change.
\<close>

definition meanwhile :: "(nat \<Rightarrow> manager \<Rightarrow> manager) \<Rightarrow> nat \<Rightarrow> manager \<Rightarrow> manager" where
  "meanwhile others i s = (others i s)\<lparr>clock := clock s, effects := effects s\<rparr>"

text \<open>
  \<open>#executeQuery\<close>: a timer of 200 ms that ends in the rows or in a new \<open>Error\<close>. \<open>i\<close> is the
  number of the wait.
\<close>

definition executeQuery ::
  "bool \<Rightarrow> (nat \<Rightarrow> manager \<Rightarrow> manager) \<Rightarrow> nat \<Rightarrow> conn_id \<Rightarrow> js_value \<Rightarrow> js_value \<Rightarrow> manager
     \<Rightarrow> js_value outcome \<times> manager" where
  "executeQuery ok others i c q ps s =
     (let s1 = meanwhile others i ((setTimeout 200 s)\<lparr>effects := effects s @ [ExecuteQuery c q ps]\<rparr>)
      in (if ok then Returned (queryResult q ps)
          else Thrown (JError ''Query execution failed'' (clock s1)), s1))"

text \<open>
  The time after which a timer of Node fires: a delay below 1 ms or above 2147483647 ms is
  set to 1 ms.
\<close>

definition timerDelay :: "nat \<Rightarrow> nat" where
  "timerDelay ms = (if ms < 1 \<or> 2147483647 < ms then 1 else ms)"

text \<open>\<open>#delay(ms)\<close>, as wait number \<open>i\<close>.\<close>

definition delay :: "(nat \<Rightarrow> manager \<Rightarrow> manager) \<Rightarrow> nat \<Rightarrow> nat \<Rightarrow> manager \<Rightarrow> manager" where
  "delay others i ms s =
     meanwhile others i ((setTimeout (timerDelay ms) s)\<lparr>effects := effects s @ [Delay ms]\<rparr>)"

text \<open>
  The \<open>for\<close> loop of \<open>#executeQueryWithRetry\<close>, from \<open>attempt\<close> on; \<open>ok k\<close> tells whether the
  \<open>k\<close>-th attempt succeeds. The loop reads \<open>retryAttempts\<close> and \<open>retryDelay\<close> afresh in every
  round, so a program that keeps raising \<open>retryAttempts\<close> while the call waits keeps the loop
  going: the loop is a partial function. Attempt \<open>k\<close> is wait \<open>2 * (k - 1)\<close> and the delay after
  it is wait \<open>2 * k - 1\<close>.
\<close>

partial_function (option) executeQueryLoop ::
  "(nat \<Rightarrow> bool) \<Rightarrow> (nat \<Rightarrow> manager \<Rightarrow> manager) \<Rightarrow> conn_id \<Rightarrow> js_value \<Rightarrow> js_value \<Rightarrow> nat
     \<Rightarrow> js_value \<Rightarrow> manager \<Rightarrow> (js_value outcome \<times> manager) option" where
  "executeQueryLoop ok others c q ps attempt lastError s =
     (if attempt \<le> retryAttempts s
      then (case executeQuery (ok attempt) others (2 * (attempt - 1)) c q ps s of
              (Returned v, s1) \<Rightarrow> Some (Returned v, s1)
            | (Thrown e, s1) \<Rightarrow>
                executeQueryLoop ok others c q ps (Suc attempt) e
                  (if attempt < retryAttempts s1
                   then delay others (2 * attempt - 1) (retryDelay s1 * attempt) s1 else s1))
      else Some (Thrown lastError, s))"

declare executeQueryLoop.simps [code]

definition executeQueryWithRetry ::
  "(nat \<Rightarrow> bool) \<Rightarrow> (nat \<Rightarrow> manager \<Rightarrow> manager) \<Rightarrow> conn_id \<Rightarrow> js_value \<Rightarrow> js_value \<Rightarrow> manager
     \<Rightarrow> (js_value outcome \<times> manager) option" where
  "executeQueryWithRetry ok others c q ps s = executeQueryLoop ok others c q ps 1 JUndefined s"

definition bumpTotal :: "manager \<Rightarrow> manager" where
  "bumpTotal s = s\<lparr>stats := (stats s)\<lparr>totalQueries := Suc (totalQueries (stats s))\<rparr>\<rparr>"

definition bumpSuccessful :: "manager \<Rightarrow> manager" where
  "bumpSuccessful s =
     s\<lparr>stats := (stats s)\<lparr>successfulQueries := Suc (successfulQueries (stats s))\<rparr>\<rparr>"

definition bumpFailed :: "manager \<Rightarrow> manager" where
  "bumpFailed s = s\<lparr>stats := (stats s)\<lparr>failedQueries := Suc (failedQueries (stats s))\<rparr>\<rparr>"

text \<open>The step of \<open>query\<close> that the source comments "Ensure we're connected".\<close>

definition ensureConnected :: "bool \<Rightarrow> manager \<Rightarrow> unit outcome \<times> manager" where
  "ensureConnected connOk s =
     (if connectionState s \<noteq> CONNECTED then connect connOk s else (Returned (), s))"

text \<open>
  The value that leaves the \<open>catch\<close> block of \<open>query\<close>. Before it throws \<open>error\<close> again the
  block logs \<open>error.message\<close>, and reading a property of \<open>undefined\<close> or of \<open>null\<close> throws a
  \<open>TypeError\<close> in its place (the text of the message is that of V8).
\<close>

definition caught :: "js_value \<Rightarrow> manager \<Rightarrow> js_value" where
  "caught e s =
     (if e = JUndefined
      then JTypeError ''Cannot read properties of undefined (reading 'message')'' (clock s)
      else if e = JNull
      then JTypeError ''Cannot read properties of null (reading 'message')'' (clock s)
      else e)"

text \<open>The default of the parameter \<open>params\<close>.\<close>

definition paramsOrDefault :: "js_value \<Rightarrow> js_value" where
  "paramsOrDefault ps = (if ps = JUndefined then JArray [] else ps)"

text \<open>
  The body of \<open>query(query, params)\<close>. \<open>connOk\<close> is the outcome of the simulated connection,
  should the call have to connect; \<open>ok\<close> gives the outcome of each attempt.
\<close>

definition query ::
  "js_value \<Rightarrow> js_value \<Rightarrow> bool \<Rightarrow> (nat \<Rightarrow> bool) \<Rightarrow> (nat \<Rightarrow> manager \<Rightarrow> manager) \<Rightarrow> manager
     \<Rightarrow> (js_value outcome \<times> manager) option" where
  "query q ps connOk ok others s =
     (if falsy q \<or> typeof q \<noteq> ''string''
      then Some (Thrown (JError ''Query must be a non-empty string'' (clock s)), s)
      else
        (case ensureConnected connOk (bumpTotal s) of
           (Thrown e, s1) \<Rightarrow> Some (Thrown e, s1)
         | (Returned u, s1) \<Rightarrow>
             (case getConnection others s1 of
                None \<Rightarrow> None
              | Some (c, s2) \<Rightarrow>
                  (case executeQueryWithRetry ok others c q (paramsOrDefault ps) s2 of
                     None \<Rightarrow> None
                   | Some (Returned v, s3) \<Rightarrow>
                       Some (Returned v, releaseConnection c (bumpSuccessful s3))
                   | Some (Thrown e, s3) \<Rightarrow>
                       Some (Thrown (caught e (bumpFailed s3)),
                             releaseConnection c (bumpFailed s3))))))"

text \<open>A call of \<open>query\<close>, as its caller sees it at once.\<close>

definition queryCall ::
  "js_value \<Rightarrow> js_value \<Rightarrow> bool \<Rightarrow> (nat \<Rightarrow> bool) \<Rightarrow> (nat \<Rightarrow> manager \<Rightarrow> manager) \<Rightarrow> manager
     \<Rightarrow> (js_value outcome \<times> manager) option called" where
  "queryCall q ps connOk ok others s = async (query q ps connOk ok others s)"

subsection \<open>Transactions\<close>

text \<open>
  The three steps around the body: a timer of 50 ms, then the assignment to
  \<open>transactionActive\<close>.
\<close>

definition beginTransaction ::
  "(nat \<Rightarrow> manager \<Rightarrow> manager) \<Rightarrow> conn_id \<Rightarrow> manager \<Rightarrow> manager" where
  "beginTransaction others c s =
     modify c (\<lambda>obj. obj\<lparr>transactionActive := Some True\<rparr>) (meanwhile others 0 (setTimeout 50 s))"

definition commitTransaction ::
  "(nat \<Rightarrow> manager \<Rightarrow> manager) \<Rightarrow> conn_id \<Rightarrow> manager \<Rightarrow> manager" where
  "commitTransaction others c s =
     modify c (\<lambda>obj. obj\<lparr>transactionActive := Some False\<rparr>) (meanwhile others 1 (setTimeout 50 s))"

definition rollbackTransaction ::
  "(nat \<Rightarrow> manager \<Rightarrow> manager) \<Rightarrow> conn_id \<Rightarrow> manager \<Rightarrow> manager" where
  "rollbackTransaction others c s =
     modify c (\<lambda>obj. obj\<lparr>transactionActive := Some False\<rparr>) (meanwhile others 1 (setTimeout 50 s))"

text \<open>
  The argument of \<open>transaction\<close>: a function, which receives the handle and may call back into
  the manager (so it transforms the state, ends with a value or a thrown value, or never
  ends), or a value that is no function.
\<close>

type_synonym callback = "conn_id \<Rightarrow> manager \<Rightarrow> (js_value outcome \<times> manager) option"

datatype transaction_arg = Fn callback | NotFn js_value

definition transaction ::
  "transaction_arg \<Rightarrow> (nat \<Rightarrow> manager \<Rightarrow> manager) \<Rightarrow> manager
     \<Rightarrow> (js_value outcome \<times> manager) option" where
  "transaction arg others s =
     (case arg of
        NotFn v \<Rightarrow>
          Some (Thrown (JError ''Transaction callback must be a function'' (clock s)), s)
      | Fn callback \<Rightarrow>
          (case getConnection others s of
             None \<Rightarrow> None
           | Some (c, s1) \<Rightarrow>
               (case callback c (beginTransaction others c s1) of
                  None \<Rightarrow> None
                | Some (Returned v, s2) \<Rightarrow>
                    Some (Returned v, releaseConnection c (commitTransaction others c s2))
                | Some (Thrown e, s2) \<Rightarrow>
                    Some (Thrown e, releaseConnection c (rollbackTransaction others c s2)))))"

subsection \<open>Notions of the specification\<close>

text \<open>
  The effects that the specification prescribes for attempts \<open>a\<close> to \<open>k\<close> of a retried
  operation on connection \<open>c\<close>, \<open>k\<close> being the last attempt made: each attempt runs the
  operation on \<open>c\<close>, and attempt \<open>j\<close> is followed by a delay of \<open>base * j\<close> unless it is the
  last one.
\<close>

definition retryEffects ::
  "conn_id \<Rightarrow> js_value \<Rightarrow> js_value \<Rightarrow> nat \<Rightarrow> nat \<Rightarrow> nat \<Rightarrow> effect list" where
  "retryEffects c q ps base a k =
     concat (map (\<lambda>j. ExecuteQuery c q ps # (if j < k then [Delay (base * j)] else []))
               [a..<Suc k])"

text \<open>
  The time that attempts \<open>a\<close> to \<open>k\<close> take, \<open>k\<close> being the last attempt made: 200 ms for each
  attempt, and after attempt \<open>j < k\<close> the time that a timer of \<open>base * j\<close> ms takes.
\<close>

definition retryMillis :: "nat \<Rightarrow> nat \<Rightarrow> nat \<Rightarrow> nat" where
  "retryMillis base a k =
     sum_list (map (\<lambda>j. 200 + (if j < k then timerDelay (base * j) else 0)) [a..<Suc k])"

text \<open>The idle count: how many connections of the pool are not in use.\<close>

definition idleCount :: "manager \<Rightarrow> nat" where
  "idleCount s = card (set (filter (available s) (connectionPool s)))"

text \<open>
  The state that a polling caller scans after \<open>k\<close> waits of 100 ms, the first of them being
  the \<open>i\<close>-th wait of the call.
\<close>

fun waits :: "(nat \<Rightarrow> manager \<Rightarrow> manager) \<Rightarrow> nat \<Rightarrow> nat \<Rightarrow> manager \<Rightarrow> manager" where
  "waits others i 0 s = s"
| "waits others i (Suc k) s = waits others (Suc i) k (others i (setTimeout 100 s))"

text \<open>A program in which nothing else runs while a caller waits.\<close>

definition alone :: "nat \<Rightarrow> manager \<Rightarrow> manager" where
  "alone i s = s"

text \<open>
  What a scan of a polling caller that ends the wait looks like: \<open>k\<close> waits went by, no scan
  before found a connection, the scan after the \<open>k\<close>-th wait finds \<open>fst y\<close>, and the caller
  leaves with it marked in the state \<open>snd y\<close>.
\<close>

definition scanned ::
  "(nat \<Rightarrow> manager \<Rightarrow> manager) \<Rightarrow> nat \<Rightarrow> manager \<Rightarrow> conn_id \<times> manager \<Rightarrow> nat \<Rightarrow> bool" where
  "scanned others i s y k \<longleftrightarrow>
     (\<forall>j<k. firstAvailable (waits others i j s) = None) \<and>
     firstAvailable (waits others i k s) = Some (fst y) \<and>
     snd y = markInUse (fst y) (waits others i k s)"

text \<open>The three counters of the statistics that \<open>query\<close> maintains.\<close>

definition queryCounters :: "manager \<Rightarrow> nat \<times> nat \<times> nat" where
  "queryCounters s =
     (totalQueries (stats s), successfulQueries (stats s), failedQueries (stats s))"

subsection \<open>Sample programs, states and transaction bodies\<close>

text \<open>A program in which, during the second wait of the caller, connection 0 is released.\<close>

definition releasing :: "nat \<Rightarrow> manager \<Rightarrow> manager" where
  "releasing i s = (if i = 1 then releaseConnection 0 s else s)"

text \<open>A program in which a call of \<open>disconnect\<close> runs from start to end during wait 0.\<close>

definition disconnecting :: "nat \<Rightarrow> manager \<Rightarrow> manager" where
  "disconnecting i s = (if i = 0 then disconnect s else s)"

text \<open>
  A program in which \<open>disconnect\<close> is called during wait 0, where it sets the state, and ends
  during wait 1, where it deletes the connections of the pool.
\<close>

definition disconnectUnderWay :: "nat \<Rightarrow> manager \<Rightarrow> manager" where
  "disconnectUnderWay i s =
     (if i = 0 then s\<lparr>connectionState := DISCONNECTED\<rparr>
      else if i = 1
      then (let s1 = closeLoop (connectionPool s) s
            in s1\<lparr>stats := (stats s1)\<lparr>activeConnections := 0\<rparr>\<rparr>)
      else s)"

text \<open>A pool of two connections, the first in use.\<close>

definition busy :: manager where
  "busy = initial\<lparr>connectionPool := [0, 1],
            heap := (\<lambda>c. blank\<lparr>inUse := (c = 0)\<rparr>)\<rparr>"

text \<open>A pool of capacity one whose only connection is in use.\<close>

definition exhausted :: manager where
  "exhausted = initial\<lparr>connectionPool := [0],
      heap := (\<lambda>c. if c = 0 then \<lparr>createdAt = 100, lastUsed = 100, inUse = True,
                                     transactionActive = None\<rparr> else blank),
      maxConnections := 1,
      stats := (stats initial)\<lparr>activeConnections := 1\<rparr>, clock := 100, nextId := 1\<rparr>"

text \<open>The manager after \<open>connect\<close>, and after \<open>connect\<close> and \<open>disconnect\<close>.\<close>

definition opened :: manager where
  "opened = snd (connect True initial)"

definition closed :: manager where
  "closed = disconnect (snd (connect True initial))"

text \<open>The manager of capacity one after \<open>connect\<close>.\<close>

definition single :: manager where
  "single = snd (connect True (configure 1 30000 10000 3 1000 initial))"


text \<open>Bodies that leave the manager alone and return a value, or throw.\<close>

definition returnsOne :: callback where
  "returnsOne c s = Some (Returned (JNumber 1), s)"

definition throwsBoom :: callback where
  "throwsBoom c s = Some (Thrown (JError ''boom'' (clock s)), s)"

text \<open>A body that returns the identifier of the connection it was given.\<close>

definition returnsHandle :: callback where
  "returnsHandle c s = Some (Returned (JNumber (int c)), s)"

text \<open>A body that starts a transaction of its own.\<close>

definition nests :: callback where
  "nests c s = transaction (Fn returnsHandle) alone s"

text \<open>
  A body that checks that its connection is marked \<open>transactionActive\<close>, assigns \<open>false\<close> to
  the \<open>inUse\<close> property of the handle and starts a transaction of its own.
\<close>

definition freesHandleAndNests :: callback where
  "freesHandleAndNests c s =
     (if transactionActive (heap s c) = Some True
      then transaction (Fn returnsHandle) alone (modify c (\<lambda>obj. obj\<lparr>inUse := False\<rparr>) s)
      else Some (Thrown (JString ''no transaction''), s))"

text \<open>
  The state in which that body, run by \<open>transaction\<close> on the initial manager, starts its
  transaction: the connection that the outer transaction holds is marked
  \<open>transactionActive\<close>, and its handle says that it is not in use.
\<close>

definition inside :: manager where
  "inside =
     (case getConnection alone initial of
        Some (c, s1) \<Rightarrow> modify c (\<lambda>obj. obj\<lparr>inUse := False\<rparr>) (beginTransaction alone c s1)
      | None \<Rightarrow> initial)"

text \<open>
  The manager that was never connected, after a transaction: \<open>transaction\<close> does not
  connect, so the state is still \<open>DISCONNECTED\<close>, and the pool holds the connection that the
  transaction created.
\<close>

definition used :: manager where
  "used = (case transaction (Fn returnsOne) alone initial of Some (r, t) \<Rightarrow> t | None \<Rightarrow> initial)"

text \<open>Bodies that call \<open>disconnect\<close> and then return, or throw.\<close>

definition shutsDown :: callback where
  "shutsDown c s = Some (Returned (JNumber 1), disconnect s)"

definition shutsDownAndThrows :: callback where
  "shutsDownAndThrows c s = Some (Thrown (JError ''boom'' (clock s)), disconnect s)"

section \<open>Properties\<close>

subsection \<open>Auxiliary facts\<close>

lemma find_SomeD: "find P xs = Some x \<Longrightarrow> x \<in> set xs"
  by (induction xs) (auto split: if_splits)

lemma find_Some_holds: "find P xs = Some x \<Longrightarrow> P x"
  by (induction xs) (auto split: if_splits)

lemma retryEffects_step:
  "a \<le> k \<Longrightarrow> retryEffects c q ps base a k =
     ExecuteQuery c q ps # (if a < k then [Delay (base * a)] else [])
       @ retryEffects c q ps base (Suc a) k"
  by (simp add: retryEffects_def upt_conv_Cons)

lemma retryEffects_done: "k < a \<Longrightarrow> retryEffects c q ps base a k = []"
  by (simp add: retryEffects_def)

lemma retryMillis_step:
  "a \<le> k \<Longrightarrow> retryMillis base a k =
     200 + (if a < k then timerDelay (base * a) else 0) + retryMillis base (Suc a) k"
  by (simp add: retryMillis_def upt_conv_Cons)

lemma retryMillis_done: "k < a \<Longrightarrow> retryMillis base a k = 0"
  by (simp add: retryMillis_def)

subsection \<open>The retry loop\<close>

lemma meanwhile_clock [simp]:
  "clock (meanwhile others i s) = clock s" "effects (meanwhile others i s) = effects s"
  by (simp_all add: meanwhile_def)

lemma meanwhile_alone [simp]: "meanwhile alone i s = s"
  by (simp add: meanwhile_def alone_def)

lemma meanwhile_policy:
  assumes "\<forall>i t. retryAttempts (others i t) = retryAttempts t \<and>
                 retryDelay (others i t) = retryDelay t"
  shows "retryAttempts (meanwhile others i s) = retryAttempts s"
    and "retryDelay (meanwhile others i s) = retryDelay s"
  using assms by (simp_all add: meanwhile_def)

lemma executeQuery_policy:
  assumes "\<forall>i t. retryAttempts (others i t) = retryAttempts t \<and>
                 retryDelay (others i t) = retryDelay t"
    and "executeQuery b others i c q ps s = (r, s1)"
  shows "retryAttempts s1 = retryAttempts s" and "retryDelay s1 = retryDelay s"
    and "clock s1 = clock s + 200" and "effects s1 = effects s @ [ExecuteQuery c q ps]"
    and "r = (if b then Returned (queryResult q ps)
              else Thrown (JError ''Query execution failed'' (clock s + 200)))"
  using assms(2) meanwhile_policy[OF assms(1)]
  by (auto simp: executeQuery_def Let_def setTimeout_def)

lemma delay_policy:
  assumes "\<forall>i t. retryAttempts (others i t) = retryAttempts t \<and>
                 retryDelay (others i t) = retryDelay t"
  shows "retryAttempts (delay others i ms s) = retryAttempts s"
    and "retryDelay (delay others i ms s) = retryDelay s"
    and "clock (delay others i ms s) = clock s + timerDelay ms"
    and "effects (delay others i ms s) = effects s @ [Delay ms]"
  using meanwhile_policy[OF assms]
  by (simp_all add: delay_def setTimeout_def)

lemma executeQueryLoop_run:
  assumes keep: "\<forall>i t. retryAttempts (others i t) = retryAttempts t \<and>
                       retryDelay (others i t) = retryDelay t"
  shows "\<exists>r s'. executeQueryLoop ok others c q ps a e s = Some (r, s') \<and>
           retryAttempts s' = retryAttempts s \<and>
           (case find ok [a..<Suc (retryAttempts s)] of
              Some k \<Rightarrow> r = Returned (queryResult q ps) \<and>
                effects s' = effects s @ retryEffects c q ps (retryDelay s) a k \<and>
                clock s' = clock s + retryMillis (retryDelay s) a k
            | None \<Rightarrow>
                r = Thrown (if a \<le> retryAttempts s
                            then JError ''Query execution failed'' (clock s') else e) \<and>
                effects s' = effects s @ retryEffects c q ps (retryDelay s) a (retryAttempts s) \<and>
                clock s' = clock s + retryMillis (retryDelay s) a (retryAttempts s))"
proof (induction "Suc (retryAttempts s) - a" arbitrary: a e s)
  case 0
  then have over: "\<not> a \<le> retryAttempts s" by simp
  then have "executeQueryLoop ok others c q ps a e s = Some (Thrown e, s)"
    by (subst executeQueryLoop.simps) simp
  moreover from over have "[a..<Suc (retryAttempts s)] = []" by simp
  ultimately show ?case using over by (simp add: retryEffects_done retryMillis_done)
next
  case (Suc m)
  then have le: "a \<le> retryAttempts s" by simp
  then have upt: "[a..<Suc (retryAttempts s)] = a # [Suc a..<Suc (retryAttempts s)]"
    by (simp add: upt_conv_Cons)
  obtain r1 s1 where ex: "executeQuery (ok a) others (2 * (a - 1)) c q ps s = (r1, s1)"
    by (cases "executeQuery (ok a) others (2 * (a - 1)) c q ps s")
  note f1 = executeQuery_policy[OF keep ex]
  show ?case
  proof (cases "ok a")
    case True
    with f1(5) have r1: "r1 = Returned (queryResult q ps)" by simp
    have "executeQueryLoop ok others c q ps a e s = Some (Returned (queryResult q ps), s1)"
      using le ex r1 by (subst executeQueryLoop.simps) simp
    with True upt le f1 show ?thesis
      by (simp add: retryEffects_def retryMillis_def)
  next
    case False
    define e1 where "e1 = JError ''Query execution failed'' (clock s + 200)"
    from False f1(5) have r1: "r1 = Thrown e1" by (simp add: e1_def)
    define s2 where "s2 = (if a < retryAttempts s1
        then delay others (2 * a - 1) (retryDelay s1 * a) s1 else s1)"
    have eq: "executeQueryLoop ok others c q ps a e s
        = executeQueryLoop ok others c q ps (Suc a) e1 s2"
      using le ex r1 by (subst executeQueryLoop.simps) (simp add: s2_def)
    note d = delay_policy[OF keep, of "2 * a - 1" "retryDelay s1 * a" s1]
    have n2: "retryAttempts s2 = retryAttempts s" and d2: "retryDelay s2 = retryDelay s"
      using f1(1,2) d(1,2) by (simp_all add: s2_def)
    have c2: "clock s2 = clock s + 200 + (if a < retryAttempts s
        then timerDelay (retryDelay s * a) else 0)"
      using f1(1,2,3) d(3) by (simp add: s2_def)
    have e2: "effects s2 = effects s @ ExecuteQuery c q ps #
        (if a < retryAttempts s then [Delay (retryDelay s * a)] else [])"
      using f1(1,2,4) d(4) by (simp add: s2_def)
    have m: "m = Suc (retryAttempts s2) - Suc a" using Suc.hyps(2) n2 by simp
    from Suc.hyps(1)[OF m, of e1] obtain r s' where
      run: "executeQueryLoop ok others c q ps (Suc a) e1 s2 = Some (r, s')"
      and n': "retryAttempts s' = retryAttempts s2"
      and rest: "(case find ok [Suc a..<Suc (retryAttempts s2)] of
              Some k \<Rightarrow> r = Returned (queryResult q ps) \<and>
                effects s' = effects s2 @ retryEffects c q ps (retryDelay s2) (Suc a) k \<and>
                clock s' = clock s2 + retryMillis (retryDelay s2) (Suc a) k
            | None \<Rightarrow>
                r = Thrown (if Suc a \<le> retryAttempts s2
                            then JError ''Query execution failed'' (clock s') else e1) \<and>
                effects s' = effects s2 @ retryEffects c q ps (retryDelay s2) (Suc a) (retryAttempts s2) \<and>
                clock s' = clock s2 + retryMillis (retryDelay s2) (Suc a) (retryAttempts s2))"
      by blast
    have "retryAttempts s' = retryAttempts s \<and>
        (case find ok [a..<Suc (retryAttempts s)] of
              Some k \<Rightarrow> r = Returned (queryResult q ps) \<and>
                effects s' = effects s @ retryEffects c q ps (retryDelay s) a k \<and>
                clock s' = clock s + retryMillis (retryDelay s) a k
            | None \<Rightarrow>
                r = Thrown (if a \<le> retryAttempts s
                            then JError ''Query execution failed'' (clock s') else e) \<and>
                effects s' = effects s @ retryEffects c q ps (retryDelay s) a (retryAttempts s) \<and>
                clock s' = clock s + retryMillis (retryDelay s) a (retryAttempts s))"
    proof (cases "find ok [Suc a..<Suc (retryAttempts s)]")
      case None
      with rest have r: "r = Thrown (if Suc a \<le> retryAttempts s
              then JError ''Query execution failed'' (clock s') else e1)"
        and ef: "effects s' = effects s2 @ retryEffects c q ps (retryDelay s) (Suc a) (retryAttempts s)"
        and cl: "clock s' = clock s2 + retryMillis (retryDelay s) (Suc a) (retryAttempts s)"
        by (simp_all add: n2 d2)
      have last: "\<not> Suc a \<le> retryAttempts s \<Longrightarrow> clock s' = clock s + 200"
        using cl c2 le by (simp add: retryMillis_done)
      have "r = Thrown (JError ''Query execution failed'' (clock s'))"
        using r last by (auto simp: e1_def)
      with None False upt le ef cl n' n2 show ?thesis
        by (simp add: e2 c2 retryEffects_step retryMillis_step)
    next
      case (Some k)
      then have "k \<in> set [Suc a..<Suc (retryAttempts s)]" by (rule find_SomeD)
      then have "Suc a \<le> k \<and> k < Suc (retryAttempts s)"
        by (simp only: set_upt atLeastLessThan_iff)
      then have k: "a < k" "k \<le> retryAttempts s" by simp_all
      from Some rest have "r = Returned (queryResult q ps)"
        and "effects s' = effects s2 @ retryEffects c q ps (retryDelay s) (Suc a) k"
        and "clock s' = clock s2 + retryMillis (retryDelay s) (Suc a) k"
        by (simp_all add: n2 d2)
      with Some False upt k n' n2 show ?thesis
        by (simp add: e2 c2 retryEffects_step retryMillis_step)
    qed
    with run show ?thesis unfolding eq by blast
  qed
qed


lemma meanwhile_counters:
  "\<forall>i t. queryCounters (others i t) = queryCounters t \<Longrightarrow>
     queryCounters (meanwhile others i s) = queryCounters s"
  by (simp add: meanwhile_def queryCounters_def)

lemma executeQueryLoop_counters:
  assumes run: "executeQueryLoop ok others c q ps a e s = Some y"
    and keep: "\<forall>i t. queryCounters (others i t) = queryCounters t"
  shows "queryCounters (snd y) = queryCounters s"
proof -
  let ?P = "\<lambda>(ok :: nat \<Rightarrow> bool) others (c :: conn_id) (q :: js_value) (ps :: js_value)
      (a :: nat) (e :: js_value) s (y :: js_value outcome \<times> manager).
      (\<forall>i t. queryCounters (others i t) = queryCounters t)
        \<longrightarrow> queryCounters (snd y) = queryCounters s"
  have "?P ok others c q ps a e s y"
  proof (rule executeQueryLoop.raw_induct[where P = ?P, OF _ run])
    fix f ok others c q ps a e s y
    assume ih: "\<And>ok others c q ps a e s y. f ok others c q ps a e s = Some y \<Longrightarrow>
        ?P ok others c q ps a e s y"
      and body: "(if a \<le> retryAttempts s
          then (case executeQuery (ok a) others (2 * (a - 1)) c q ps s of
                  (Returned v, s1) \<Rightarrow> Some (Returned v, s1)
                | (Thrown e, s1) \<Rightarrow>
                    f ok others c q ps (Suc a) e
                      (if a < retryAttempts s1
                       then delay others (2 * a - 1) (retryDelay s1 * a) s1 else s1))
          else Some (Thrown e, s)) = Some y"
    show "?P ok others c q ps a e s y"
    proof
      assume keep: "\<forall>i t. queryCounters (others i t) = queryCounters t"
      note mw = meanwhile_counters[OF keep]
      obtain r1 s1 where ex: "executeQuery (ok a) others (2 * (a - 1)) c q ps s = (r1, s1)"
        by (cases "executeQuery (ok a) others (2 * (a - 1)) c q ps s")
      then have c1: "queryCounters s1 = queryCounters s"
        using mw[of "2 * (a - 1)" "(setTimeout 200 s)\<lparr>effects := effects s @ [ExecuteQuery c q ps]\<rparr>"]
        by (auto simp: executeQuery_def Let_def queryCounters_def setTimeout_def)
      define s2 where "s2 = (if a < retryAttempts s1
          then delay others (2 * a - 1) (retryDelay s1 * a) s1 else s1)"
      have c2: "queryCounters s2 = queryCounters s"
        using c1 mw[of "2 * a - 1"
          "(setTimeout (timerDelay (retryDelay s1 * a)) s1)\<lparr>effects := effects s1 @ [Delay (retryDelay s1 * a)]\<rparr>"]
        by (auto simp: s2_def delay_def queryCounters_def setTimeout_def)
      show "queryCounters (snd y) = queryCounters s"
      proof (cases "a \<le> retryAttempts s")
        case False
        with body show ?thesis by auto
      next
        case True
        show ?thesis
        proof (cases r1)
          case (Returned v)
          with True body ex c1 show ?thesis by auto
        next
          case (Thrown e1)
          with True body ex have "f ok others c q ps (Suc a) e1 s2 = Some y"
            by (simp add: s2_def)
          from ih[OF this] keep c2 show ?thesis by simp
        qed
      qed
    qed
  qed
  with keep show ?thesis by simp
qed

subsection \<open>Releasing a connection\<close>

lemma idle_after_release:
  "set (filter (available (releaseConnection c s)) (connectionPool (releaseConnection c s)))
     \<subseteq> insert c (set (filter (available s) (connectionPool s)))"
  by (auto simp: releaseConnection_def modify_def available_def)

lemma idleCount_release: "idleCount (releaseConnection c s) \<le> Suc (idleCount s)"
proof -
  have "idleCount (releaseConnection c s)
      \<le> card (insert c (set (filter (available s) (connectionPool s))))"
    unfolding idleCount_def by (rule card_mono[OF _ idle_after_release]) simp
  also have "\<dots> \<le> Suc (idleCount s)"
    unfolding idleCount_def by (rule card_insert_le_m1) simp_all
  finally show ?thesis .
qed

lemma idle_release_again:
  "set (filter (available (releaseConnection c (setTimeout ms (releaseConnection c s))))
         (connectionPool (releaseConnection c (setTimeout ms (releaseConnection c s)))))
     = set (filter (available (releaseConnection c s)) (connectionPool (releaseConnection c s)))"
  by (auto simp: releaseConnection_def modify_def available_def setTimeout_def)

text \<open>
  Claim C9. Releasing a handle that the pool tracks marks the connection as not in use and
  sets its \<open>lastUsed\<close> to the current time; releasing a handle that the pool does not track
  changes nothing and raises nothing. Releasing the same handle twice, whatever time
  passes in between, leaves the idle count where the first release put it, which is at
  most one above the count before the releases.
\<close>

theorem releaseConnection_idempotent:
  "(c \<in> set (connectionPool s) \<longrightarrow>
      heap (releaseConnection c s) c = (heap s c)\<lparr>inUse := False, lastUsed := clock s\<rparr>) \<and>
   (c \<notin> set (connectionPool s) \<longrightarrow> releaseConnection c s = s) \<and>
   idleCount (releaseConnection c (setTimeout ms (releaseConnection c s)))
     = idleCount (releaseConnection c s) \<and>
   idleCount (releaseConnection c (setTimeout ms (releaseConnection c s))) \<le> Suc (idleCount s)"
proof -
  have twice: "idleCount (releaseConnection c (setTimeout ms (releaseConnection c s)))
      = idleCount (releaseConnection c s)"
    unfolding idleCount_def by (simp only: idle_release_again)
  show ?thesis
    using idleCount_release [of c s]
    by (simp add: twice) (simp add: releaseConnection_def modify_def)
qed

theorem releaseConnection_idempotent_witness:
  "inUse (heap busy 0) \<and> idleCount busy = 1 \<and>
   \<not> inUse (heap (releaseConnection 0 busy) 0) \<and>
   releaseConnection 7 busy = busy \<and>
   idleCount (releaseConnection 0 (setTimeout 5 (releaseConnection 0 busy))) = 2"
  using releaseConnection_idempotent [of 0 busy 5] releaseConnection_idempotent [of 7 busy 5]
  by (simp add: busy_def initial_def blank_def idleCount_def available_def releaseConnection_def
      modify_def setTimeout_def)

subsection \<open>Acquiring a connection\<close>

lemma exhausted_reached:
  "getConnection alone (configure 1 30000 10000 3 1000 initial) = Some (0, exhausted)"
  by (simp add: getConnection_def firstAvailable_def configure_def initial_def createConnection_def
      setTimeout_def modify_def poolSet_def exhausted_def fun_eq_iff blank_def)

lemma checkConnection_sound:
  assumes "checkConnection others i s = Some y"
  shows "\<exists>k. scanned others i s y k"
proof (rule checkConnection.raw_induct[where P = "\<lambda>others i s y. \<exists>k. scanned others i s y k", OF _ assms])
  fix f others i s y
  assume ih: "\<And>others i s y. f others i s = Some y \<Longrightarrow> \<exists>k. scanned others i s y k"
    and run: "(case firstAvailable s of
                None \<Rightarrow> f others (Suc i) (others i (setTimeout 100 s))
              | Some c \<Rightarrow> Some (c, markInUse c s)) = Some y"
  show "\<exists>k. scanned others i s y k"
  proof (cases "firstAvailable s")
    case (Some c)
    with run have "y = (c, markInUse c s)" by simp
    with Some have "scanned others i s y 0" by (simp add: scanned_def)
    then show ?thesis ..
  next
    case None
    with run have "f others (Suc i) (others i (setTimeout 100 s)) = Some y"
      by simp
    from ih[OF this] obtain k where k: "scanned others (Suc i) (others i (setTimeout 100 s)) y k" ..
    have a: "\<forall>j<Suc k. firstAvailable (waits others i j s) = None"
    proof (intro allI impI)
      fix j assume j: "j < Suc k"
      show "firstAvailable (waits others i j s) = None"
      proof (cases j)
        case 0
        with None show ?thesis by simp
      next
        case (Suc j')
        with j have "j' < k" by simp
        with k have "firstAvailable (waits others (Suc i) j' (others i (setTimeout 100 s))) = None"
          unfolding scanned_def by blast
        with Suc show ?thesis by simp
      qed
    qed
    have b: "firstAvailable (waits others i (Suc k) s) = Some (fst y)"
      using k by (simp add: scanned_def)
    have c: "snd y = markInUse (fst y) (waits others i (Suc k) s)"
      using k by (simp add: scanned_def)
    from a b c have "scanned others i s y (Suc k)" unfolding scanned_def by (intro conjI)
    then show ?thesis ..
  qed
qed

lemma checkConnection_complete:
  "(\<forall>j<k. firstAvailable (waits others i j s) = None) \<Longrightarrow>
   firstAvailable (waits others i k s) = Some c \<Longrightarrow>
   checkConnection others i s = Some (c, markInUse c (waits others i k s))"
proof (induction k arbitrary: i s)
  case 0
  then show ?case by (subst checkConnection.simps) simp
next
  case (Suc k)
  from Suc.prems(1) have none: "firstAvailable s = None" by fastforce
  have "\<forall>j<k. firstAvailable (waits others (Suc i) j (others i (setTimeout 100 s))) = None"
  proof (intro allI impI)
    fix j assume "j < k"
    then have "Suc j < Suc k" by simp
    with Suc.prems(1) have "firstAvailable (waits others i (Suc j) s) = None" by blast
    then show "firstAvailable (waits others (Suc i) j (others i (setTimeout 100 s))) = None" by simp
  qed
  moreover from Suc.prems(2)
  have "firstAvailable (waits others (Suc i) k (others i (setTimeout 100 s))) = Some c" by simp
  ultimately have "checkConnection others (Suc i) (others i (setTimeout 100 s))
      = Some (c, markInUse c (waits others (Suc i) k (others i (setTimeout 100 s))))"
    by (rule Suc.IH)
  with none show ?case by (subst checkConnection.simps) simp
qed

lemma checkConnection_never:
  assumes "\<forall>k. firstAvailable (waits others i k s) = None"
  shows "checkConnection others i s = None"
proof (cases "checkConnection others i s")
  case (Some y)
  from checkConnection_sound[OF this] assms show ?thesis by (auto simp: scanned_def)
qed simp

lemma waits_alone: "waits alone i k s = s\<lparr>clock := clock s + 100 * k\<rparr>"
  by (induction k arbitrary: i s) (simp_all add: alone_def setTimeout_def)

lemma firstAvailable_clock [simp]: "firstAvailable (s\<lparr>clock := t\<rparr>) = firstAvailable s"
  by (simp add: firstAvailable_def available_def cong: find_cong)


lemma firstAvailable_waits_alone: "firstAvailable (waits alone i k s) = firstAvailable s"
  by (simp add: waits_alone)

lemma getConnection_found:
  "firstAvailable s = Some c \<Longrightarrow> getConnection others s = Some (c, markInUse c s)"
  by (simp add: getConnection_def)

lemma getConnection_created:
  assumes "firstAvailable s = None" and "length (connectionPool s) < maxConnections s"
  shows "\<exists>s'. getConnection others s = Some (nextId s, s') \<and>
           nextId s \<in> set (connectionPool s') \<and>
           (nextId s \<notin> set (connectionPool s) \<longrightarrow>
              connectionPool s' = connectionPool s @ [nextId s]) \<and>
           heap s' (nextId s) = \<lparr>createdAt = clock s + 100, lastUsed = clock s + 100,
                                   inUse = True, transactionActive = None\<rparr>"
  using assms
  by (simp add: getConnection_def createConnection_def setTimeout_def modify_def poolSet_def Let_def)

lemma getConnection_polls:
  assumes "firstAvailable s = None" and "\<not> length (connectionPool s) < maxConnections s"
  shows "getConnection others s = Some y \<longleftrightarrow> (\<exists>k. scanned others 0 s y k)"
proof
  assume "getConnection others s = Some y"
  with assms have "checkConnection others 0 s = Some y" by (simp add: getConnection_def)
  then show "\<exists>k. scanned others 0 s y k" by (rule checkConnection_sound)
next
  assume "\<exists>k. scanned others 0 s y k"
  then obtain k where "scanned others 0 s y k" ..
  then have "checkConnection others 0 s = Some (fst y, markInUse (fst y) (waits others 0 k s))"
    and "snd y = markInUse (fst y) (waits others 0 k s)"
    by (simp_all add: scanned_def checkConnection_complete)
  then have "checkConnection others 0 s = Some y" by (simp add: prod_eq_iff)
  with assms show "getConnection others s = Some y" by (simp add: getConnection_def)
qed

text \<open>
  Claim C3, with the timeout taken out. A call of \<open>#getConnection\<close> scans the pool in insertion
  order. If the scan finds a connection \<open>c\<close> that is not in use, \<open>c\<close> is marked in use, its
  \<open>lastUsed\<close> is set to the current time, and \<open>c\<close> is returned. If there is none and the pool
  holds fewer than \<open>maxConnections\<close> connections, a connection is created (which takes
  100 ms), marked in use, added to the pool and returned. Otherwise the caller scans again
  every 100 ms: the call returns at the first scan that finds a connection not in use, with
  that connection, and at no other moment. Nothing bounds the wait and the call cannot fail:
  there is no \<open>AcquireTimeout\<close> error, and \<open>connectionTimeout\<close> is not consulted.
\<close>

theorem getConnection_branches:
  "(firstAvailable s = Some c \<longrightarrow>
      c \<in> set (connectionPool s) \<and> \<not> inUse (heap s c) \<and>
      getConnection others s = Some (c, markInUse c s) \<and>
      heap (markInUse c s) c = (heap s c)\<lparr>inUse := True, lastUsed := clock s\<rparr>) \<and>
   (firstAvailable s = None \<and> length (connectionPool s) < maxConnections s \<longrightarrow>
      (\<exists>s'. getConnection others s = Some (nextId s, s') \<and>
            nextId s \<in> set (connectionPool s') \<and>
            (nextId s \<notin> set (connectionPool s) \<longrightarrow>
               connectionPool s' = connectionPool s @ [nextId s]) \<and>
            heap s' (nextId s) = \<lparr>createdAt = clock s + 100, lastUsed = clock s + 100,
                                    inUse = True, transactionActive = None\<rparr>)) \<and>
   (firstAvailable s = None \<and> \<not> length (connectionPool s) < maxConnections s \<longrightarrow>
      (\<forall>y. getConnection others s = Some y \<longleftrightarrow> (\<exists>k. scanned others 0 s y k)))"
proof (intro conjI impI allI)
  assume f: "firstAvailable s = Some c"
  then show "c \<in> set (connectionPool s)"
    unfolding firstAvailable_def by (rule find_SomeD)
  from f have "available s c" unfolding firstAvailable_def by (rule find_Some_holds)
  then show "\<not> inUse (heap s c)" by (simp add: available_def)
  from f show "getConnection others s = Some (c, markInUse c s)" by (rule getConnection_found)
  show "heap (markInUse c s) c = (heap s c)\<lparr>inUse := True, lastUsed := clock s\<rparr>"
    by (simp add: markInUse_def modify_def)
next
  assume "firstAvailable s = None \<and> length (connectionPool s) < maxConnections s"
  then show "\<exists>s'. getConnection others s = Some (nextId s, s') \<and>
            nextId s \<in> set (connectionPool s') \<and>
            (nextId s \<notin> set (connectionPool s) \<longrightarrow>
               connectionPool s' = connectionPool s @ [nextId s]) \<and>
            heap s' (nextId s) = \<lparr>createdAt = clock s + 100, lastUsed = clock s + 100,
                                    inUse = True, transactionActive = None\<rparr>"
    by (simp add: getConnection_created)
next
  fix y
  assume "firstAvailable s = None \<and> \<not> length (connectionPool s) < maxConnections s"
  then show "getConnection others s = Some y \<longleftrightarrow> (\<exists>k. scanned others 0 s y k)"
    by (simp add: getConnection_polls)
qed

theorem getConnection_branches_witness:
  "getConnection alone busy = Some (1, markInUse 1 busy) \<and>
   (\<exists>s'. getConnection alone (configure 1 30000 10000 3 1000 initial) = Some (0, s') \<and>
         connectionPool s' = [0] \<and> inUse (heap s' 0)) \<and>
   getConnection releasing exhausted = Some (0, markInUse 0 (waits releasing 0 2 exhausted)) \<and>
   clock (waits releasing 0 2 exhausted) = clock exhausted + 200"
proof -
  have a: "firstAvailable busy = Some 1"
    by (simp add: firstAvailable_def available_def busy_def initial_def blank_def)
  have b: "firstAvailable (configure 1 30000 10000 3 1000 initial) = None \<and>
      length (connectionPool (configure 1 30000 10000 3 1000 initial))
        < maxConnections (configure 1 30000 10000 3 1000 initial)"
    by (simp add: firstAvailable_def configure_def initial_def)
  have c: "firstAvailable exhausted = None \<and>
      \<not> length (connectionPool exhausted) < maxConnections exhausted"
    by (simp add: firstAvailable_def available_def exhausted_def initial_def)
  have w1: "waits releasing 0 (Suc 0) exhausted = setTimeout 100 exhausted"
    by (simp add: releasing_def)
  have w2: "waits releasing 0 2 exhausted
      = releaseConnection 0 (setTimeout 100 (setTimeout 100 exhausted))"
    by (simp add: releasing_def numeral_2_eq_2)
  have d: "scanned releasing 0 exhausted (0, markInUse 0 (waits releasing 0 2 exhausted)) 2"
    unfolding scanned_def
  proof (intro conjI allI impI)
    fix j :: nat assume "j < 2"
    then have "j = 0 \<or> j = Suc 0" by auto
    then show "firstAvailable (waits releasing 0 j exhausted) = None"
      using c by (auto simp: releasing_def setTimeout_def)
  next
    show "firstAvailable (waits releasing 0 2 exhausted) = Some (fst (0, markInUse 0 (waits releasing 0 2 exhausted)))"
      unfolding w2
      by (simp add: firstAvailable_def available_def exhausted_def initial_def
          releaseConnection_def modify_def setTimeout_def)
  qed simp
  have e: "clock (waits releasing 0 2 exhausted) = clock exhausted + 200"
    by (simp add: w2 releaseConnection_def modify_def setTimeout_def)
  from getConnection_branches [of busy 1 alone] a
  have 1: "getConnection alone busy = Some (1, markInUse 1 busy)" by simp
  from getConnection_branches [of "configure 1 30000 10000 3 1000 initial" 0 alone] b
  have 2: "\<exists>s'. getConnection alone (configure 1 30000 10000 3 1000 initial) = Some (0, s') \<and>
         connectionPool s' = [0] \<and> inUse (heap s' 0)"
    by (auto simp: configure_def initial_def)
  from getConnection_branches [of exhausted 0 releasing] c d
  have 3: "getConnection releasing exhausted
      = Some (0, markInUse 0 (waits releasing 0 2 exhausted))" by blast
  from 1 2 3 e show ?thesis by (intro conjI)
qed

text \<open>
  Against claim C3 as the specification words it: with the pool at capacity, every connection
  in use and nobody releasing one, the call never settles. However long the caller has
  waited, it has not failed with an \<open>AcquireTimeout\<close> error.
\<close>

theorem getConnection_never_times_out: "getConnection alone exhausted = None"
proof -
  have none: "firstAvailable exhausted = None"
    by (simp add: firstAvailable_def available_def exhausted_def initial_def)
  then have "\<forall>k. firstAvailable (waits alone 0 k exhausted) = None"
    by (simp add: firstAvailable_waits_alone)
  then have "checkConnection alone 0 exhausted = None" by (rule checkConnection_never)
  moreover have "\<not> length (connectionPool exhausted) < maxConnections exhausted"
    by (simp add: exhausted_def initial_def)
  ultimately show ?thesis using none by (simp add: getConnection_def)
qed

text \<open>The equations that evaluate a run on a concrete state.\<close>

lemmas run_defs = query_def transaction_def ensureConnected_def connect_def simulateConnection_def
  initializeConnectionPool_def initializeLoop.simps createConnection_def poolSet_def
  getConnection_def firstAvailable_def available_def markInUse_def modify_def
  executeQueryWithRetry_def executeQueryLoop.simps executeQuery_def delay_def timerDelay_def
  setTimeout_def meanwhile_def alone_def caught_def paramsOrDefault_def
  releaseConnection_def bumpTotal_def bumpSuccessful_def bumpFailed_def
  beginTransaction_def commitTransaction_def rollbackTransaction_def
  disconnect_def closeConnection_def configure_def initial_def blank_def

subsection \<open>What a call leaves untouched\<close>

lemma waits_counters:
  "\<forall>i t. queryCounters (others i t) = queryCounters t \<Longrightarrow>
     queryCounters (waits others i k s) = queryCounters s"
proof (induction k arbitrary: i s)
  case 0
  show ?case by simp
next
  case (Suc k)
  have "queryCounters (waits others i (Suc k) s)
      = queryCounters (others i (setTimeout 100 s))"
    using Suc.IH[OF Suc.prems] by simp
  also have "\<dots> = queryCounters (setTimeout 100 s)" using Suc.prems by simp
  also have "\<dots> = queryCounters s" by (simp add: queryCounters_def setTimeout_def)
  finally show ?case .
qed

lemma getConnection_result:
  assumes "getConnection others s = Some (c, s')"
  shows "(firstAvailable s = Some c \<and> s' = markInUse c s) \<or>
         (firstAvailable s = None \<and> length (connectionPool s) < maxConnections s \<and>
            getConnection alone s = Some (c, s')) \<or>
         (firstAvailable s = None \<and> (\<exists>k. scanned others 0 s (c, s') k))"
proof (cases "firstAvailable s")
  case (Some d)
  with assms show ?thesis by (auto simp: getConnection_def)
next
  case None
  show ?thesis
  proof (cases "length (connectionPool s) < maxConnections s")
    case True
    with None assms show ?thesis by (simp add: getConnection_def)
  next
    case False
    with None assms have "checkConnection others 0 s = Some (c, s')"
      by (simp add: getConnection_def)
    then have "\<exists>k. scanned others 0 s (c, s') k" by (rule checkConnection_sound)
    with None show ?thesis by simp
  qed
qed

lemma getConnection_pooled:
  assumes "getConnection others s = Some (c, s')"
  shows "c \<in> set (connectionPool s') \<and> inUse (heap s' c)"
  using getConnection_result[OF assms]
proof (elim disjE conjE exE)
  assume f: "firstAvailable s = Some c" and s': "s' = markInUse c s"
  from f have "c \<in> set (connectionPool s)" unfolding firstAvailable_def by (rule find_SomeD)
  with s' show ?thesis by (simp add: markInUse_def modify_def)
next
  assume "firstAvailable s = None" "length (connectionPool s) < maxConnections s"
    and "getConnection alone s = Some (c, s')"
  then show ?thesis
    by (auto simp: getConnection_def createConnection_def setTimeout_def modify_def poolSet_def
        Let_def split: if_splits)
next
  fix k assume "scanned others 0 s (c, s') k"
  then have f: "firstAvailable (waits others 0 k s) = Some c"
    and s': "s' = markInUse c (waits others 0 k s)" by (simp_all add: scanned_def)
  from f have "c \<in> set (connectionPool (waits others 0 k s))"
    unfolding firstAvailable_def by (rule find_SomeD)
  with s' show ?thesis by (simp add: markInUse_def modify_def)
qed

lemma getConnection_counters:
  assumes "getConnection others s = Some (c, s')"
    and "\<forall>i t. queryCounters (others i t) = queryCounters t"
  shows "queryCounters s' = queryCounters s"
  using getConnection_result[OF assms(1)]
proof (elim disjE conjE exE)
  assume "s' = markInUse c s"
  then show ?thesis by (simp add: queryCounters_def markInUse_def modify_def)
next
  assume "firstAvailable s = None" "length (connectionPool s) < maxConnections s"
    and "getConnection alone s = Some (c, s')"
  then show ?thesis
    by (auto simp: getConnection_def createConnection_def setTimeout_def modify_def poolSet_def
        Let_def queryCounters_def split: if_splits)
next
  fix k assume "scanned others 0 s (c, s') k"
  then have "s' = markInUse c (waits others 0 k s)" by (simp add: scanned_def)
  then have "queryCounters s' = queryCounters (waits others 0 k s)"
    by (simp add: queryCounters_def markInUse_def modify_def)
  with waits_counters[OF assms(2)] show ?thesis by simp
qed

lemma initializeLoop_frame:
  "stats (initializeLoop i s) = stats s \<and> effects (initializeLoop i s) = effects s \<and>
   maxConnections (initializeLoop i s) = maxConnections s \<and>
   retryAttempts (initializeLoop i s) = retryAttempts s \<and>
   retryDelay (initializeLoop i s) = retryDelay s \<and>
   connectionState (initializeLoop i s) = connectionState s"
proof (induction i s rule: initializeLoop.induct)
  case (1 i s)
  show ?case
  proof (cases "i < min 3 (maxConnections s)")
    case False
    then have "initializeLoop i s = s" by (subst initializeLoop.simps) auto
    then show ?thesis by simp
  next
    case True
    obtain c s1 where cr: "createConnection s = (c, s1)" by (cases "createConnection s")
    have eq: "initializeLoop i s = initializeLoop (Suc i) (poolSet c s1)"
      using True cr by (subst initializeLoop.simps) simp
    have fr: "stats (poolSet c s1) = stats s \<and> effects (poolSet c s1) = effects s \<and>
        maxConnections (poolSet c s1) = maxConnections s \<and>
        retryAttempts (poolSet c s1) = retryAttempts s \<and>
        retryDelay (poolSet c s1) = retryDelay s \<and>
        connectionState (poolSet c s1) = connectionState s"
      using cr by (auto simp: createConnection_def setTimeout_def poolSet_def Let_def)
    from "1.IH"[OF True cr[symmetric]] fr show ?thesis unfolding eq by simp
  qed
qed

lemma connect_counters: "queryCounters (snd (connect ok s)) = queryCounters s"
  by (simp add: connect_def simulateConnection_def initializeConnectionPool_def Let_def
      queryCounters_def initializeLoop_frame setTimeout_def)

lemma ensureConnected_counters: "ensureConnected ok s = (r, s') \<Longrightarrow> queryCounters s' = queryCounters s"
  using connect_counters[of ok s] by (auto simp: ensureConnected_def split: if_splits)


subsection \<open>Retrying a query\<close>


lemma alone_policy:
  "\<forall>i t. retryAttempts (alone i t) = retryAttempts t \<and> retryDelay (alone i t) = retryDelay t"
  by (simp add: alone_def)



subsection \<open>Validation of the query argument\<close>

text \<open>
  Claim C10, with the rejection in place of the throw. \<open>query\<close> is an \<open>async\<close> function, so
  a call throws nothing: it gives a promise. When the first argument is missing
  (\<open>undefined\<close>), is the empty string, or is not a string at all, that promise is rejected with
  the error \<open>Query must be a non-empty string\<close>, and the state of the manager is the one
  before the call: no counter has moved, \<open>totalQueries\<close> included, and no connection was
  acquired.
\<close>

theorem query_rejects_bad_argument:
  assumes "q = JUndefined \<or> q = JString [] \<or> (\<forall>str. q \<noteq> JString str)"
  shows "queryCall q ps connOk ok others s =
           GavePromise (Some (Thrown (JError ''Query must be a non-empty string'' (clock s)), s))"
proof (cases q)
  case (JString str)
  with assms have "str = []" by simp
  with JString show ?thesis by (simp add: queryCall_def async_def query_def)
qed (simp_all add: queryCall_def async_def query_def)

theorem query_rejects_bad_argument_witness:
  "queryCall JUndefined (JArray []) True (\<lambda>j. True) alone initial =
     GavePromise (Some (Thrown (JError ''Query must be a non-empty string'' 0), initial)) \<and>
   queryCall (JString []) (JArray []) True (\<lambda>j. True) alone initial =
     GavePromise (Some (Thrown (JError ''Query must be a non-empty string'' 0), initial)) \<and>
   queryCall (JNumber 42) (JArray []) True (\<lambda>j. True) alone initial =
     GavePromise (Some (Thrown (JError ''Query must be a non-empty string'' 0), initial))"
  using query_rejects_bad_argument [of JUndefined "JArray []" True "\<lambda>j. True" alone initial]
    query_rejects_bad_argument [of "JString []" "JArray []" True "\<lambda>j. True" alone initial]
    query_rejects_bad_argument [of "JNumber 42" "JArray []" True "\<lambda>j. True" alone initial]
  by (simp add: initial_def)

text \<open>
  Against claim C10 as the specification words it: the call of \<open>query\<close> with the empty string
  throws nothing synchronously.
\<close>

theorem query_does_not_throw_synchronously:
  "\<not> threwSync (queryCall (JString []) (JArray []) True (\<lambda>j. True) alone initial)"
  by (simp add: queryCall_def async_def)

subsection \<open>Statistics of a query\<close>

text \<open>
  Claim C4, with the statistics as the code keeps them. The statistics count calls of
  \<open>query\<close>, not attempts. A call with a non-empty string, during whose waits
  the rest of the program leaves the three query counters alone, raises \<open>totalQueries\<close> by
  one whatever the number of attempts it makes. If the call returns a value it raises
  \<open>successfulQueries\<close> by one and leaves \<open>failedQueries\<close>; if it throws, it leaves
  \<open>successfulQueries\<close> and raises \<open>failedQueries\<close> by one, unless the error is that of the
  connection step, which moves neither. The attempts inside the call leave no trace in the
  statistics.
\<close>

theorem query_counts_once:
  assumes "q = JString str" and "str \<noteq> []"
    and "\<forall>i t. queryCounters (others i t) = queryCounters t"
    and "query q ps connOk ok others s = Some (r, s')"
  shows "totalQueries (stats s') = Suc (totalQueries (stats s)) \<and>
    (\<forall>v. r = Returned v \<longrightarrow>
       successfulQueries (stats s') = Suc (successfulQueries (stats s)) \<and>
       failedQueries (stats s') = failedQueries (stats s)) \<and>
    (\<forall>e. r = Thrown e \<longrightarrow>
       successfulQueries (stats s') = successfulQueries (stats s) \<and>
       failedQueries (stats s') =
         (if fst (ensureConnected connOk (bumpTotal s)) = Returned ()
          then Suc (failedQueries (stats s)) else failedQueries (stats s)))"
proof -
  obtain r1 s1 where ec: "ensureConnected connOk (bumpTotal s) = (r1, s1)"
    by (cases "ensureConnected connOk (bumpTotal s)")
  have c1: "queryCounters s1 = queryCounters (bumpTotal s)"
    by (rule ensureConnected_counters[OF ec])
  have valid: "\<not> (falsy q \<or> typeof q \<noteq> ''string'')" using assms(1,2) by simp
  show ?thesis
  proof (cases r1)
    case (Thrown e)
    with assms(4) valid ec have "r = Thrown e" "s' = s1" by (simp_all add: query_def)
    with c1 ec Thrown show ?thesis by (simp add: queryCounters_def bumpTotal_def)
  next
    case (Returned u)
    with assms(4) valid ec obtain c s2 where gc: "getConnection others s1 = Some (c, s2)"
      by (cases "getConnection others s1") (auto simp: query_def)
    have c2: "queryCounters s2 = queryCounters s1"
      by (rule getConnection_counters[OF gc assms(3)])
    from assms(4) valid ec Returned gc obtain r3 s3 where
      ex: "executeQueryWithRetry ok others c q (paramsOrDefault ps) s2 = Some (r3, s3)"
      by (cases "executeQueryWithRetry ok others c q (paramsOrDefault ps) s2")
        (auto simp: query_def)
    have c3: "queryCounters s3 = queryCounters s2"
      using executeQueryLoop_counters[OF ex[unfolded executeQueryWithRetry_def] assms(3)]
      by simp
    from c1 c2 c3 have st: "totalQueries (stats s3) = Suc (totalQueries (stats s))"
      "successfulQueries (stats s3) = successfulQueries (stats s)"
      "failedQueries (stats s3) = failedQueries (stats s)"
      by (simp_all add: queryCounters_def bumpTotal_def)
    show ?thesis
    proof (cases r3)
      case (Returned v)
      with assms(4) valid ec \<open>r1 = Returned u\<close> gc ex
      have "r = Returned v" "s' = releaseConnection c (bumpSuccessful s3)"
        by (simp_all add: query_def)
      with st show ?thesis by (simp add: releaseConnection_def modify_def bumpSuccessful_def)
    next
      case (Thrown e)
      with assms(4) valid ec \<open>r1 = Returned u\<close> gc ex
      have "\<exists>e'. r = Thrown e'" "s' = releaseConnection c (bumpFailed s3)"
        by (auto simp: query_def)
      with st ec \<open>r1 = Returned u\<close> show ?thesis
        by (auto simp: releaseConnection_def modify_def bumpFailed_def)
    qed
  qed
qed

lemma alone_counters: "\<forall>i t. queryCounters (alone i t) = queryCounters t"
  by (simp add: alone_def)

theorem query_counts_once_witness:
  "\<exists>s'. query (JString ''SELECT 1'') (JArray []) True (\<lambda>j. 3 \<le> j) alone initial
       = Some (Returned (queryResult (JString ''SELECT 1'') (JArray [])), s') \<and>
     totalQueries (stats s') = 1 \<and> successfulQueries (stats s') = 1 \<and>
     failedQueries (stats s') = 0"
proof -
  obtain s' where run: "query (JString ''SELECT 1'') (JArray []) True (\<lambda>j. 3 \<le> j) alone initial
       = Some (Returned (queryResult (JString ''SELECT 1'') (JArray [])), s')"
    by (simp add: run_defs)
  from query_counts_once [OF refl _ alone_counters run]
  have "totalQueries (stats s') = 1 \<and> successfulQueries (stats s') = 1 \<and>
     failedQueries (stats s') = 0"
    by (simp add: initial_def)
  with run show ?thesis by blast
qed

text \<open>
  Against claim C4 as the specification words it: with three attempts allowed and an operation
  that fails twice and then succeeds, the call returns the value after three attempts, and
  the statistics show one query, one success and no failure.
\<close>

theorem query_records_one_of_three_attempts:
  "map_option (\<lambda>(r, s). (r, totalQueries (stats s), successfulQueries (stats s),
                         failedQueries (stats s), effects s))
     (query (JString ''SELECT 1'') (JArray []) True (\<lambda>j. 3 \<le> j) alone initial)
   = Some (Returned (queryResult (JString ''SELECT 1'') (JArray [])), 1, 1, 0,
       [ExecuteQuery 0 (JString ''SELECT 1'') (JArray []), Delay 1000,
        ExecuteQuery 0 (JString ''SELECT 1'') (JArray []), Delay 2000,
        ExecuteQuery 0 (JString ''SELECT 1'') (JArray [])])"
  by (simp add: run_defs)


subsection \<open>Scoped use of a connection\<close>

lemma transaction_run:
  assumes "getConnection others s = Some (c, s1)"
    and "callback c (beginTransaction others c s1) = Some (r, s2)"
  shows "transaction (Fn callback) others s =
     Some (r, releaseConnection c
        (case r of Returned v \<Rightarrow> commitTransaction others c s2
         | Thrown e \<Rightarrow> rollbackTransaction others c s2))"
  using assms by (cases r) (simp_all add: transaction_def)

lemma release_facts:
  "connectionPool (releaseConnection c t) = connectionPool t"
  "c \<in> set (connectionPool t) \<Longrightarrow> \<not> inUse (heap (releaseConnection c t) c)"
  "c \<notin> set (connectionPool t) \<Longrightarrow> releaseConnection c t = t"
  "transactionActive (heap (releaseConnection c t) c) = transactionActive (heap t c)"
  by (simp_all add: releaseConnection_def modify_def)

lemma transaction_flag:
  "transactionActive (heap (beginTransaction others c s) c) = Some True"
  "transactionActive (heap (commitTransaction others c s) c) = Some False"
  "transactionActive (heap (rollbackTransaction others c s) c) = Some False"
  by (simp_all add: beginTransaction_def commitTransaction_def rollbackTransaction_def modify_def)

text \<open>
  Claim C7, with the guard of \<open>#releaseConnection\<close> taken into account. A call of \<open>query\<close>
  with a non-empty string that has connected, acquired the connection \<open>c\<close> and seen the
  retried operation settle, settles as well: with the value of the operation, or with its
  error (in place of a thrown \<open>undefined\<close> or \<open>null\<close>, the \<open>TypeError\<close> of the \<open>catch\<close> block).
  A call of \<open>transaction\<close> whose body settles ends as the body ends, value or error
  unchanged. Both call \<open>#releaseConnection\<close> on \<open>c\<close> last. If the pool tracks \<open>c\<close> at that
  moment, \<open>c\<close> is not in use afterwards; if the pool has dropped \<open>c\<close> by then, because the unit
  of work or another caller has disconnected the manager, the release does nothing and
  the \<open>inUse\<close> flag of \<open>c\<close> stays as it was.
\<close>

theorem scoped_release:
  "(q = JString str \<and> str \<noteq> [] \<and>
    ensureConnected connOk (bumpTotal s) = (Returned u, sa) \<and>
    getConnection others sa = Some (c, sb) \<and>
    executeQueryWithRetry ok others c q (paramsOrDefault ps) sb = Some (r3, s3) \<longrightarrow>
      (\<exists>s'. query q ps connOk ok others s =
             Some (case r3 of Returned v \<Rightarrow> Returned v
                   | Thrown e \<Rightarrow> Thrown (caught e (bumpFailed s3)), s') \<and>
         (\<forall>e. r3 = Thrown e \<and> e \<noteq> JUndefined \<and> e \<noteq> JNull
               \<longrightarrow> caught e (bumpFailed s3) = e) \<and>
         connectionPool s' = connectionPool s3 \<and>
         (c \<in> set (connectionPool s3) \<longrightarrow> \<not> inUse (heap s' c)) \<and>
         (c \<notin> set (connectionPool s3) \<longrightarrow> inUse (heap s' c) = inUse (heap s3 c)))) \<and>
   (getConnection others s = Some (c, s1) \<and>
    callback c (beginTransaction others c s1) = Some (r, s2) \<and>
    t = (case r of Returned v \<Rightarrow> commitTransaction others c s2
         | Thrown e \<Rightarrow> rollbackTransaction others c s2) \<longrightarrow>
      transaction (Fn callback) others s = Some (r, releaseConnection c t) \<and>
      connectionPool (releaseConnection c t) = connectionPool t \<and>
      (c \<in> set (connectionPool t) \<longrightarrow> \<not> inUse (heap (releaseConnection c t) c)) \<and>
      (c \<notin> set (connectionPool t) \<longrightarrow>
         inUse (heap (releaseConnection c t) c) = inUse (heap t c)))"
proof (intro conjI impI)
  assume a: "q = JString str \<and> str \<noteq> [] \<and>
    ensureConnected connOk (bumpTotal s) = (Returned u, sa) \<and>
    getConnection others sa = Some (c, sb) \<and>
    executeQueryWithRetry ok others c q (paramsOrDefault ps) sb = Some (r3, s3)"
  then have valid: "\<not> (falsy q \<or> typeof q \<noteq> ''string'')" by simp
  from a have ec: "ensureConnected connOk (bumpTotal s) = (Returned u, sa)" by blast
  from a have gc: "getConnection others sa = Some (c, sb)" by blast
  from a have ex: "executeQueryWithRetry ok others c q (paramsOrDefault ps) sb = Some (r3, s3)"
    by blast
  define b where "b = (case r3 of Returned v \<Rightarrow> bumpSuccessful s3 | Thrown e \<Rightarrow> bumpFailed s3)"
  have pb: "connectionPool b = connectionPool s3"
    by (cases r3) (simp_all add: b_def bumpSuccessful_def bumpFailed_def)
  have hb: "heap b = heap s3"
    by (cases r3) (simp_all add: b_def bumpSuccessful_def bumpFailed_def)
  have q: "query q ps connOk ok others s =
      Some (case r3 of Returned v \<Rightarrow> Returned v
            | Thrown e \<Rightarrow> Thrown (caught e (bumpFailed s3)), releaseConnection c b)"
    using valid ec gc ex by (cases r3) (simp_all add: query_def b_def)
  have same: "\<forall>e. r3 = Thrown e \<and> e \<noteq> JUndefined \<and> e \<noteq> JNull
      \<longrightarrow> caught e (bumpFailed s3) = e"
    by (simp add: caught_def)
  have p1: "connectionPool (releaseConnection c b) = connectionPool s3"
    using pb by (simp add: release_facts(1))
  have p2: "c \<in> set (connectionPool s3) \<longrightarrow> \<not> inUse (heap (releaseConnection c b) c)"
    using pb release_facts(2)[of c b] by simp
  have p3: "c \<notin> set (connectionPool s3) \<longrightarrow>
      inUse (heap (releaseConnection c b) c) = inUse (heap s3 c)"
    using pb hb release_facts(3)[of c b] by simp
  from q same p1 p2 p3
  show "\<exists>s'. query q ps connOk ok others s =
             Some (case r3 of Returned v \<Rightarrow> Returned v
                   | Thrown e \<Rightarrow> Thrown (caught e (bumpFailed s3)), s') \<and>
         (\<forall>e. r3 = Thrown e \<and> e \<noteq> JUndefined \<and> e \<noteq> JNull
               \<longrightarrow> caught e (bumpFailed s3) = e) \<and>
         connectionPool s' = connectionPool s3 \<and>
         (c \<in> set (connectionPool s3) \<longrightarrow> \<not> inUse (heap s' c)) \<and>
         (c \<notin> set (connectionPool s3) \<longrightarrow> inUse (heap s' c) = inUse (heap s3 c))"
    by (intro exI[of _ "releaseConnection c b"] conjI)
next
  assume b: "getConnection others s = Some (c, s1) \<and>
    callback c (beginTransaction others c s1) = Some (r, s2) \<and>
    t = (case r of Returned v \<Rightarrow> commitTransaction others c s2
         | Thrown e \<Rightarrow> rollbackTransaction others c s2)"
  then show "transaction (Fn callback) others s = Some (r, releaseConnection c t)"
    by (simp add: transaction_run)
  show "connectionPool (releaseConnection c t) = connectionPool t"
    by (rule release_facts)
next
  assume "c \<in> set (connectionPool t)"
  then show "\<not> inUse (heap (releaseConnection c t) c)" by (rule release_facts)
next
  assume "c \<notin> set (connectionPool t)"
  then show "inUse (heap (releaseConnection c t) c) = inUse (heap t c)"
    by (simp add: release_facts)
qed

theorem scoped_release_witness:
  "(\<exists>s'. query (JString ''SELECT 1'') (JArray []) True (\<lambda>j. True) alone initial
        = Some (Returned (queryResult (JString ''SELECT 1'') (JArray [])), s') \<and>
      connectionPool s' = [0, 1, 2] \<and> \<not> inUse (heap s' 0)) \<and>
   (\<exists>s'. transaction (Fn throwsBoom) alone initial = Some (Thrown (JError ''boom'' 150), s') \<and>
      connectionPool s' = [0] \<and> \<not> inUse (heap s' 0))"
proof -
  define sA where "sA = snd (ensureConnected True (bumpTotal initial))"
  have ec: "ensureConnected True (bumpTotal initial) = (Returned (), sA)"
    by (simp add: sA_def run_defs)
  have gcA: "getConnection alone sA = Some (0, markInUse 0 sA)"
    by (rule getConnection_found) (simp add: sA_def run_defs)
  obtain s3 where ex: "executeQueryWithRetry (\<lambda>j. True) alone 0 (JString ''SELECT 1'')
      (paramsOrDefault (JArray [])) (markInUse 0 sA)
      = Some (Returned (queryResult (JString ''SELECT 1'') (JArray [])), s3)"
    and pool3: "connectionPool s3 = [0, 1, 2]"
    by (simp add: sA_def run_defs)
  obtain s1 where gc: "getConnection alone initial = Some (0, s1)"
    and pool: "connectionPool s1 = [0]" and clock: "clock s1 = 100"
    by (simp add: run_defs)
  define s2 where "s2 = beginTransaction alone 0 s1"
  define t where "t = rollbackTransaction alone 0 s2"
  have body: "throwsBoom 0 (beginTransaction alone 0 s1) = Some (Thrown (JError ''boom'' 150), s2)"
    using clock by (simp add: throwsBoom_def s2_def beginTransaction_def modify_def setTimeout_def)
  have poolt: "connectionPool t = [0]"
    using pool
    by (simp add: t_def s2_def beginTransaction_def rollbackTransaction_def modify_def
        setTimeout_def)
  note inst = scoped_release [where q = "JString ''SELECT 1''" and str = "''SELECT 1''"
      and ps = "JArray []" and connOk = True and ok = "\<lambda>j. True" and others = alone
      and s = initial and c = 0 and u = "()" and sa = sA and sb = "markInUse 0 sA"
      and ?r3.0 = "Returned (queryResult (JString ''SELECT 1'') (JArray []))" and ?s3.0 = s3
      and ?s1.0 = s1 and callback = throwsBoom and r = "Thrown (JError ''boom'' 150)"
      and ?s2.0 = s2 and t = t]
  from inst [THEN conjunct1] ec gcA ex pool3
  have 1: "\<exists>s'. query (JString ''SELECT 1'') (JArray []) True (\<lambda>j. True) alone initial
        = Some (Returned (queryResult (JString ''SELECT 1'') (JArray [])), s') \<and>
      connectionPool s' = [0, 1, 2] \<and> \<not> inUse (heap s' 0)"
    by auto
  from inst [THEN conjunct2] gc body poolt
  have 2: "\<exists>s'. transaction (Fn throwsBoom) alone initial = Some (Thrown (JError ''boom'' 150), s') \<and>
      connectionPool s' = [0] \<and> \<not> inUse (heap s' 0)"
    by (simp add: t_def s2_def)
  from 1 2 show ?thesis by (rule conjI)
qed

text \<open>
  Against claim C7 as the specification words it. A transaction whose body calls
  \<open>disconnect\<close> and returns: the pool is emptied, the release in the \<open>finally\<close> block is
  skipped, and the connection is still marked in use after the call. A query during whose
  first attempt another caller disconnects the manager: it returns its rows, and its
  connection is still marked in use.
\<close>

theorem release_skipped_after_disconnect:
  "map_option (\<lambda>(r, s). (r, connectionPool s, inUse (heap s 0)))
     (transaction (Fn shutsDown) alone opened)
   = Some (Returned (JNumber 1), [], True) \<and>
   map_option (\<lambda>(r, s). (r, connectionPool s, inUse (heap s 0)))
     (query (JString ''SELECT 1'') (JArray []) True (\<lambda>j. True) disconnecting opened)
   = Some (Returned (queryResult (JString ''SELECT 1'') (JArray [])), [], True)"
  by (simp add: opened_def shutsDown_def disconnecting_def run_defs)

text \<open>
  Claim C8, with the guard of \<open>#releaseConnection\<close> taken into account. When the body of a
  transaction throws \<open>e\<close>, the call throws \<open>e\<close>, and its final state is the state in which the
  body ended, rolled back and released once: the body has run exactly once and nothing is
  retried. The connection is no longer marked \<open>transactionActive\<close>. If the pool tracks the
  connection when the rollback has ended, the connection is afterwards in the pool and not
  in use; if not, the release does nothing, and the connection is not in the pool and its
  \<open>inUse\<close> flag is as it was.
\<close>

theorem transaction_rollback:
  assumes "getConnection others s = Some (c, s1)"
    and "callback c (beginTransaction others c s1) = Some (Thrown e, s2)"
    and "t = rollbackTransaction others c s2"
  shows "transaction (Fn callback) others s = Some (Thrown e, releaseConnection c t) \<and>
         transactionActive (heap (releaseConnection c t) c) = Some False \<and>
         (c \<in> set (connectionPool t) \<longrightarrow>
            c \<in> set (connectionPool (releaseConnection c t)) \<and>
            \<not> inUse (heap (releaseConnection c t) c)) \<and>
         (c \<notin> set (connectionPool t) \<longrightarrow>
            c \<notin> set (connectionPool (releaseConnection c t)) \<and>
            inUse (heap (releaseConnection c t) c) = inUse (heap t c))"
  using transaction_run[of others s c s1 callback "Thrown e" s2, OF assms(1,2)]
    release_facts[of c t] transaction_flag(3)[of others c s2] assms(3)
  by auto


theorem transaction_rollback_witness:
  "\<exists>s'. transaction (Fn throwsBoom) alone initial = Some (Thrown (JError ''boom'' 150), s') \<and>
      transactionActive (heap s' 0) = Some False \<and> \<not> inUse (heap s' 0)"
proof -
  obtain s1 where gc: "getConnection alone initial = Some (0, s1)"
    and pool: "connectionPool s1 = [0]" and clock: "clock s1 = 100"
    by (simp add: run_defs)
  define s2 where "s2 = beginTransaction alone 0 s1"
  define t where "t = rollbackTransaction alone 0 s2"
  have body: "throwsBoom 0 (beginTransaction alone 0 s1) = Some (Thrown (JError ''boom'' 150), s2)"
    using clock by (simp add: throwsBoom_def s2_def beginTransaction_def modify_def setTimeout_def)
  have poolt: "0 \<in> set (connectionPool t)"
    using pool
    by (simp add: t_def s2_def beginTransaction_def rollbackTransaction_def modify_def
        setTimeout_def)
  from transaction_rollback [where callback = throwsBoom, OF gc body t_def] poolt
  show ?thesis by blast
qed

text \<open>
  Against claim C8 as the specification words it. A body that calls \<open>disconnect\<close> and then
  throws; and a body that throws while a \<open>disconnect\<close> of another caller is under way, which
  deletes the connection during the wait of the rollback. In both runs the error comes back
  and the transaction flag is cleared, but the connection is neither in the pool nor marked
  free: it has not gone back to the idle set.
\<close>

theorem rollback_without_release:
  "map_option (\<lambda>(r, s). (r, connectionPool s, inUse (heap s 0), transactionActive (heap s 0)))
     (transaction (Fn shutsDownAndThrows) alone opened)
   = Some (Thrown (JError ''boom'' 1350), [], True, Some False) \<and>
   map_option (\<lambda>(r, s). (r, connectionPool s, inUse (heap s 0), transactionActive (heap s 0)))
     (transaction (Fn throwsBoom) disconnectUnderWay single)
   = Some (Thrown (JError ''boom'' 1150), [], True, Some False)"
  by (simp add: opened_def single_def shutsDownAndThrows_def throwsBoom_def
      disconnectUnderWay_def run_defs)

subsection \<open>Opening the pool\<close>

lemma initializeLoop_pool:
  assumes "\<forall>c\<in>set (connectionPool s). c < nextId s"
  shows "connectionPool (initializeLoop i s)
           = connectionPool s @ [nextId s..<nextId s + (min 3 (maxConnections s) - i)] \<and>
         (\<forall>c<nextId s. heap (initializeLoop i s) c = heap s c) \<and>
         (\<forall>c. nextId s \<le> c \<and> c < nextId s + (min 3 (maxConnections s) - i)
              \<longrightarrow> \<not> inUse (heap (initializeLoop i s) c))"
  using assms
proof (induction i s rule: initializeLoop.induct)
  case (1 i s)
  show ?case
  proof (cases "i < min 3 (maxConnections s)")
    case False
    then have "initializeLoop i s = s" by (subst initializeLoop.simps) auto
    moreover from False have "min 3 (maxConnections s) - i = 0" by arith
    ultimately show ?thesis by auto
  next
    case True
    define n where "n = nextId s"
    define s1 where "s1 = snd (createConnection s)"
    define s2 where "s2 = poolSet n s1"
    have cr: "createConnection s = (n, s1)"
      by (simp add: n_def s1_def createConnection_def setTimeout_def Let_def)
    have eq: "initializeLoop i s = initializeLoop (Suc i) s2"
      using True cr by (subst initializeLoop.simps) (simp add: s2_def)
    have notin: "n \<notin> set (connectionPool s)" using "1.prems" by (auto simp: n_def)
    have p2: "connectionPool s2 = connectionPool s @ [n]"
      using notin by (simp add: s2_def s1_def poolSet_def createConnection_def setTimeout_def Let_def)
    have n2: "nextId s2 = Suc n"
      by (simp add: s2_def s1_def n_def poolSet_def createConnection_def setTimeout_def Let_def)
    have m2: "maxConnections s2 = maxConnections s"
      by (simp add: s2_def s1_def poolSet_def createConnection_def setTimeout_def Let_def)
    have h2: "\<forall>c. c \<noteq> n \<longrightarrow> heap s2 c = heap s c"
      by (simp add: s2_def s1_def n_def poolSet_def createConnection_def setTimeout_def Let_def)
    have hn: "\<not> inUse (heap s2 n)"
      by (simp add: s2_def s1_def n_def poolSet_def createConnection_def setTimeout_def Let_def)
    have fresh2: "\<forall>c\<in>set (connectionPool s2). c < nextId s2"
      using "1.prems" by (auto simp: p2 n2 n_def)
    note ih = "1.IH"[OF True cr[symmetric], folded s2_def, OF fresh2, unfolded p2 n2 m2]
    from True obtain m where m: "min 3 (maxConnections s) - i = Suc m"
      by (cases "min 3 (maxConnections s) - i") auto
    then have m': "min 3 (maxConnections s) - Suc i = m" by simp
    have pool: "connectionPool (initializeLoop i s) = connectionPool s @ [n..<n + Suc m]"
      using ih unfolding eq m' by (simp add: upt_conv_Cons)
    have old: "\<forall>c<n. heap (initializeLoop i s) c = heap s c"
      using ih h2 unfolding eq by auto
    have new: "\<forall>c. n \<le> c \<and> c < n + Suc m \<longrightarrow> \<not> inUse (heap (initializeLoop i s) c)"
    proof (intro allI impI)
      fix c assume c: "n \<le> c \<and> c < n + Suc m"
      show "\<not> inUse (heap (initializeLoop i s) c)"
      proof (cases "c = n")
        case True
        with ih hn show ?thesis unfolding eq by simp
      next
        case False
        with c have "Suc n \<le> c \<and> c < Suc n + m" by simp
        with ih show ?thesis unfolding eq m' by blast
      qed
    qed
    from pool old new show ?thesis unfolding m n_def by simp
  qed
qed

lemma initializeLoop_prewarms:
  assumes "connectionPool s = []"
  shows "connectionPool (initializeConnectionPool s)
           = [nextId s..<nextId s + min 3 (maxConnections s)]"
    and "length (connectionPool (initializeConnectionPool s)) = min 3 (maxConnections s)"
    and "0 < maxConnections s \<Longrightarrow> firstAvailable (initializeConnectionPool s) = Some (nextId s)"
proof -
  have fresh: "\<forall>c\<in>set (connectionPool s). c < nextId s" using assms by simp
  note il = initializeLoop_pool[OF fresh, of 0, unfolded assms, simplified]
  show p: "connectionPool (initializeConnectionPool s)
           = [nextId s..<nextId s + min 3 (maxConnections s)]"
    using il by (simp add: initializeConnectionPool_def Let_def)
  then show "length (connectionPool (initializeConnectionPool s)) = min 3 (maxConnections s)"
    by simp
  assume pos: "0 < maxConnections s"
  then have "[nextId s..<nextId s + min 3 (maxConnections s)]
      = nextId s # [Suc (nextId s)..<nextId s + min 3 (maxConnections s)]"
    by (simp add: upt_conv_Cons)
  moreover have "\<not> inUse (heap (initializeConnectionPool s) (nextId s))"
    using il pos by (simp add: initializeConnectionPool_def Let_def)
  ultimately show "firstAvailable (initializeConnectionPool s) = Some (nextId s)"
    unfolding firstAvailable_def p by (simp add: available_def)
qed

subsection \<open>After the pool was closed\<close>

lemma closeLoop_pool:
  "connectionPool (closeLoop cs s) = filter (\<lambda>c. c \<notin> set cs) (connectionPool s) \<and>
   connectionState (closeLoop cs s) = connectionState s \<and>
   maxConnections (closeLoop cs s) = maxConnections s"
proof (induction cs arbitrary: s)
  case Nil
  show ?case by simp
next
  case (Cons c cs)
  have "filter (\<lambda>d. d \<notin> set cs) (removeAll c (connectionPool s))
      = filter (\<lambda>d. d \<notin> set (c # cs)) (connectionPool s)"
    by (induction "connectionPool s") (auto simp: removeAll_filter_not_eq intro: filter_cong)
  then show ?case
    using Cons.IH[of "(closeConnection c s)\<lparr>connectionPool := removeAll c (connectionPool (closeConnection c s))\<rparr>"]
    by (simp add: Let_def closeConnection_def setTimeout_def)
qed

lemma disconnect_closes:
  assumes "connectionState s \<noteq> DISCONNECTED"
  shows "connectionState (disconnect s) = DISCONNECTED" and "connectionPool (disconnect s) = []"
    and "maxConnections (disconnect s) = maxConnections s"
  using assms closeLoop_pool[of "connectionPool s" "s\<lparr>connectionState := DISCONNECTED\<rparr>"]
  by (simp_all add: disconnect_def Let_def)

lemma firstAvailable_cong:
  "heap t = heap s \<Longrightarrow> connectionPool t = connectionPool s \<Longrightarrow> firstAvailable t = firstAvailable s"
  by (simp add: firstAvailable_def available_def cong: find_cong)

lemma connect_closed:
  assumes "connectionState s = DISCONNECTED" and "connectionPool s = []"
    and "0 < maxConnections s"
  shows "\<exists>s1. connect True s = (Returned (), s1) \<and> connectionState s1 = CONNECTED \<and>
           firstAvailable s1 = Some (nextId s) \<and> retryAttempts s1 = retryAttempts s"
proof -
  define sC where "sC = setTimeout 1000 (s\<lparr>connectionState := CONNECTING\<rparr>)"
  define s1 where "s1 = (initializeConnectionPool sC)\<lparr>connectionState := CONNECTED\<rparr>"
  have run: "connect True s = (Returned (), s1)"
    using assms(1) by (simp add: connect_def simulateConnection_def s1_def sC_def)
  have pC: "connectionPool sC = []" and nC: "nextId sC = nextId s"
    and mC: "0 < maxConnections sC" and rC: "retryAttempts sC = retryAttempts s"
    using assms(2,3) by (simp_all add: sC_def setTimeout_def)
  have "firstAvailable s1 = firstAvailable (initializeConnectionPool sC)"
    by (rule firstAvailable_cong) (simp_all add: s1_def)
  with initializeLoop_prewarms(3)[OF pC mC] nC
  have fa: "firstAvailable s1 = Some (nextId s)" by simp
  have "retryAttempts s1 = retryAttempts s"
    using rC by (simp add: s1_def initializeConnectionPool_def Let_def initializeLoop_frame)
  with run fa show ?thesis by (simp add: s1_def)
qed

text \<open>
  Claim C2, with the rejection taken out. \<open>disconnect\<close> on a manager whose state is
  \<open>DISCONNECTED\<close> does nothing: connections that transactions have created there stay in the
  pool. On a manager in another state, \<open>disconnect\<close> leaves the state \<open>DISCONNECTED\<close> and
  the pool empty. On the state \<open>s\<close> that it leaves, with a capacity of at least one, no
  operation is rejected for the pool being closed. \<open>query\<close> with a non-empty string connects
  again. If the simulated connection fails, the call throws \<open>Connection timeout\<close> and leaves
  the state \<open>ERROR\<close>. If it succeeds and no other caller changes the retry policy, the call
  settles: with the rows if an attempt succeeds; with an Error \<open>Query execution failed\<close> if
  \<open>retryAttempts\<close> is at least one and every attempt fails; with the \<open>TypeError\<close> of the
  \<open>catch\<close> block if \<open>retryAttempts\<close> is zero. \<open>#getConnection\<close> creates a connection and
  returns it, and \<open>transaction\<close> ends as its body ends whenever the body settles.
  \<open>#releaseConnection\<close> of any handle does nothing.
\<close>

theorem operations_after_disconnect:
  "(connectionState t = DISCONNECTED \<longrightarrow> disconnect t = t) \<and>
   (connectionState s0 \<noteq> DISCONNECTED \<and> 0 < maxConnections s0 \<and> s = disconnect s0 \<longrightarrow>
      connectionState s = DISCONNECTED \<and> connectionPool s = [] \<and>
      (q = JString str \<and> str \<noteq> [] \<longrightarrow>
         (\<exists>s'. query q ps False ok others s =
                Some (Thrown (JError ''Connection timeout'' (clock s + 1000)), s') \<and>
            connectionState s' = ERROR)) \<and>
      (q = JString str \<and> str \<noteq> [] \<and>
       (\<forall>i t. retryAttempts (others i t) = retryAttempts t \<and>
              retryDelay (others i t) = retryDelay t) \<longrightarrow>
         (\<exists>r' s'. query q ps True ok others s = Some (r', s') \<and>
            (case find ok [1..<Suc (retryAttempts s)] of
               Some k \<Rightarrow> r' = Returned (queryResult q (paramsOrDefault ps))
             | None \<Rightarrow>
                 if 1 \<le> retryAttempts s
                 then \<exists>t. r' = Thrown (JError ''Query execution failed'' t)
                 else \<exists>t. r' = Thrown (JTypeError
                        ''Cannot read properties of undefined (reading 'message')'' t)))) \<and>
      (\<exists>s1. getConnection others s = Some (nextId s, s1) \<and>
         (\<forall>r s2. callback (nextId s) (beginTransaction others (nextId s) s1) = Some (r, s2) \<longrightarrow>
            (\<exists>s'. transaction (Fn callback) others s = Some (r, s')))) \<and>
      releaseConnection c s = s)"
proof (intro conjI impI)
  assume "connectionState t = DISCONNECTED"
  then show "disconnect t = t" by (simp add: disconnect_def)
next
  assume h: "connectionState s0 \<noteq> DISCONNECTED \<and> 0 < maxConnections s0 \<and> s = disconnect s0"
  then have st: "connectionState s = DISCONNECTED" and pool: "connectionPool s = []"
    and room: "0 < maxConnections s"
    using disconnect_closes[of s0] by simp_all
  show "connectionState s = DISCONNECTED" by (rule st)
  show "connectionPool s = []" by (rule pool)
  show "releaseConnection c s = s" using pool by (simp add: releaseConnection_def)
  {
    assume a: "q = JString str \<and> str \<noteq> []"
    then have valid: "\<not> (falsy q \<or> typeof q \<noteq> ''string'')" by simp
    show "\<exists>s'. query q ps False ok others s =
                Some (Thrown (JError ''Connection timeout'' (clock s + 1000)), s') \<and>
            connectionState s' = ERROR"
      using valid st
      by (simp add: query_def ensureConnected_def connect_def simulateConnection_def bumpTotal_def)
  }
  {
    assume a: "q = JString str \<and> str \<noteq> [] \<and>
       (\<forall>i t. retryAttempts (others i t) = retryAttempts t \<and>
              retryDelay (others i t) = retryDelay t)"
    then have valid: "\<not> (falsy q \<or> typeof q \<noteq> ''string'')" by simp
    from a have keep: "\<forall>i t. retryAttempts (others i t) = retryAttempts t \<and>
              retryDelay (others i t) = retryDelay t" by blast
    have b: "connectionState (bumpTotal s) = DISCONNECTED" "connectionPool (bumpTotal s) = []"
      "0 < maxConnections (bumpTotal s)" "nextId (bumpTotal s) = nextId s"
      "retryAttempts (bumpTotal s) = retryAttempts s"
      using st pool room by (simp_all add: bumpTotal_def)
    from connect_closed[OF b(1-3)] b(4,5) obtain sa where
      c: "connect True (bumpTotal s) = (Returned (), sa)"
        "firstAvailable sa = Some (nextId s)" "retryAttempts sa = retryAttempts s"
      by auto
    have ec: "ensureConnected True (bumpTotal s) = (Returned (), sa)"
      using b(1) c(1) by (simp add: ensureConnected_def)
    define n where "n = nextId s"
    define sb where "sb = markInUse n sa"
    have gc: "getConnection others sa = Some (n, sb)"
      unfolding sb_def n_def using c(2) by (rule getConnection_found)
    have k2: "retryAttempts sb = retryAttempts s"
      using c(3) by (simp add: sb_def markInUse_def modify_def)
    let ?ps = "paramsOrDefault ps"
    from executeQueryLoop_run[OF keep, of ok n q ?ps 1 JUndefined sb] obtain r3 s3 where
      ex: "executeQueryLoop ok others n q ?ps 1 JUndefined sb = Some (r3, s3)"
      and r3: "(case find ok [1..<Suc (retryAttempts s)] of
                  Some k \<Rightarrow> r3 = Returned (queryResult q ?ps)
                | None \<Rightarrow> r3 = Thrown (if 1 \<le> retryAttempts s
                     then JError ''Query execution failed'' (clock s3) else JUndefined))"
      unfolding k2 by (cases "find ok [1..<Suc (retryAttempts s)]") auto
    define r' where "r' = (case r3 of Returned v \<Rightarrow> Returned v
        | Thrown e \<Rightarrow> Thrown (caught e (bumpFailed s3)))"
    have q: "\<exists>s'. query q ps True ok others s = Some (r', s')"
      using valid ec gc ex
      by (cases r3) (simp_all add: query_def executeQueryWithRetry_def r'_def)
    have shape: "(case find ok [1..<Suc (retryAttempts s)] of
               Some k \<Rightarrow> r' = Returned (queryResult q ?ps)
             | None \<Rightarrow>
                 if 1 \<le> retryAttempts s
                 then \<exists>t. r' = Thrown (JError ''Query execution failed'' t)
                 else \<exists>t. r' = Thrown (JTypeError
                        ''Cannot read properties of undefined (reading 'message')'' t))"
      using r3 by (cases "find ok [1..<Suc (retryAttempts s)]") (auto simp: r'_def caught_def)
    from q shape
    show "\<exists>r' s'. query q ps True ok others s = Some (r', s') \<and>
            (case find ok [1..<Suc (retryAttempts s)] of
               Some k \<Rightarrow> r' = Returned (queryResult q (paramsOrDefault ps))
             | None \<Rightarrow>
                 if 1 \<le> retryAttempts s
                 then \<exists>t. r' = Thrown (JError ''Query execution failed'' t)
                 else \<exists>t. r' = Thrown (JTypeError
                        ''Cannot read properties of undefined (reading 'message')'' t))"
      by blast
  }
  have none: "firstAvailable s = None" using pool by (simp add: firstAvailable_def)
  have room': "length (connectionPool s) < maxConnections s" using pool room by simp
  from getConnection_created[OF none room', of others] obtain s1 where
    gc: "getConnection others s = Some (nextId s, s1)" by blast
  have "\<forall>r s2. callback (nextId s) (beginTransaction others (nextId s) s1) = Some (r, s2) \<longrightarrow>
      (\<exists>s'. transaction (Fn callback) others s = Some (r, s'))"
    using transaction_run[where callback = callback, OF gc] by blast
  with gc show "\<exists>s1. getConnection others s = Some (nextId s, s1) \<and>
      (\<forall>r s2. callback (nextId s) (beginTransaction others (nextId s) s1) = Some (r, s2) \<longrightarrow>
         (\<exists>s'. transaction (Fn callback) others s = Some (r, s')))" by blast
qed

theorem operations_after_disconnect_witness:
  "connectionState used = DISCONNECTED \<and> connectionPool (disconnect used) = [0] \<and>
   connectionState closed = DISCONNECTED \<and> connectionPool closed = [] \<and>
   (\<exists>s'. query (JString ''SELECT 1'') JUndefined False (\<lambda>j. True) alone closed
        = Some (Thrown (JError ''Connection timeout'' 2450), s') \<and>
      connectionState s' = ERROR) \<and>
   (\<exists>s'. query (JString ''SELECT 1'') JUndefined True (\<lambda>j. True) alone closed
        = Some (Returned (queryResult (JString ''SELECT 1'') (JArray [])), s')) \<and>
   (\<exists>s'. transaction (Fn returnsOne) alone closed = Some (Returned (JNumber 1), s')) \<and>
   releaseConnection 0 closed = closed"
proof -
  have used: "connectionState used = DISCONNECTED" "connectionPool used = [0]"
    by (simp_all add: used_def returnsOne_def run_defs)
  have opened: "connectionState opened \<noteq> DISCONNECTED" "0 < maxConnections opened"
    "closed = disconnect opened"
    by (simp_all add: closed_def opened_def run_defs)
  have facts: "clock closed = 1450" "nextId closed = 3" "retryAttempts closed = 3"
    by (simp_all add: closed_def run_defs)
  note inst = operations_after_disconnect [where t = used and ?s0.0 = opened and s = closed
      and q = "JString ''SELECT 1''" and str = "''SELECT 1''" and ps = JUndefined
      and ok = "\<lambda>j. True" and others = alone and callback = returnsOne and c = 0]
  from inst [THEN conjunct1] used
  have 1: "connectionPool (disconnect used) = [0]" by simp
  from inst [THEN conjunct2] opened
  have 2: "connectionState closed = DISCONNECTED" and 3: "connectionPool closed = []"
    and 4: "\<exists>s'. query (JString ''SELECT 1'') JUndefined False (\<lambda>j. True) alone closed =
                Some (Thrown (JError ''Connection timeout'' (clock closed + 1000)), s') \<and>
            connectionState s' = ERROR"
    and 5: "\<exists>r' s'. query (JString ''SELECT 1'') JUndefined True (\<lambda>j. True) alone closed
                = Some (r', s') \<and>
            (case find (\<lambda>j. True) [1..<Suc (retryAttempts closed)] of
               Some k \<Rightarrow> r' = Returned (queryResult (JString ''SELECT 1'') (paramsOrDefault JUndefined))
             | None \<Rightarrow>
                 if 1 \<le> retryAttempts closed
                 then \<exists>t. r' = Thrown (JError ''Query execution failed'' t)
                 else \<exists>t. r' = Thrown (JTypeError
                        ''Cannot read properties of undefined (reading 'message')'' t))"
    and 6: "\<exists>s1. getConnection alone closed = Some (nextId closed, s1) \<and>
         (\<forall>r s2. returnsOne (nextId closed) (beginTransaction alone (nextId closed) s1)
               = Some (r, s2) \<longrightarrow>
            (\<exists>s'. transaction (Fn returnsOne) alone closed = Some (r, s')))"
    and 7: "releaseConnection 0 closed = closed"
    using alone_policy by simp_all
  from 5 have five: "\<exists>s'. query (JString ''SELECT 1'') JUndefined True (\<lambda>j. True) alone closed
        = Some (Returned (queryResult (JString ''SELECT 1'') (JArray [])), s')"
    by (simp add: facts upt_conv_Cons paramsOrDefault_def)
  from 6 have six: "\<exists>s'. transaction (Fn returnsOne) alone closed = Some (Returned (JNumber 1), s')"
    by (auto simp: returnsOne_def)
  from used(1) 1 2 3 4 five six 7 show ?thesis by (simp add: facts)
qed

text \<open>
  Against claim C2 as the specification words it. After \<open>connect\<close> and \<open>disconnect\<close> the
  state is \<open>DISCONNECTED\<close>. A query then returns its rows and leaves the manager
  \<open>CONNECTED\<close> with three connections; a transaction then returns the value of its body and
  leaves one connection in the pool of the manager, which is still \<open>DISCONNECTED\<close>. Neither
  fails with a \<open>PoolClosed\<close> error.
\<close>

theorem query_after_disconnect_succeeds:
  "connectionState closed = DISCONNECTED \<and>
   map_option (\<lambda>(r, s). (r, connectionState s, length (connectionPool s)))
     (query (JString ''SELECT 1'') (JArray []) True (\<lambda>j. True) alone closed)
   = Some (Returned (queryResult (JString ''SELECT 1'') (JArray [])), CONNECTED, 3) \<and>
   map_option (\<lambda>(r, s). (r, connectionState s, length (connectionPool s)))
     (transaction (Fn returnsOne) alone closed)
   = Some (Returned (JNumber 1), DISCONNECTED, 1)"
  by (simp add: closed_def returnsOne_def run_defs)

subsection \<open>Transactions on a connection that is in a transaction\<close>

text \<open>
  The state \<open>inside\<close> is the one in which the body \<open>freesHandleAndNests\<close>, run by
  \<open>transaction\<close> on the initial manager, starts its own transaction.
\<close>

lemma inside_reached:
  "\<exists>s1. getConnection alone initial = Some (0, s1) \<and>
      freesHandleAndNests 0 (beginTransaction alone 0 s1)
        = transaction (Fn returnsHandle) alone inside"
  by (simp add: inside_def freesHandleAndNests_def getConnection_def firstAvailable_def
      initial_def createConnection_def setTimeout_def modify_def poolSet_def
      beginTransaction_def meanwhile_def alone_def)




text \<open>
  At capacity one the transaction that such a body starts finds no connection and scans the
  pool for ever, so the outer call never settles either.
\<close>

lemma nested_transaction_waits_for_ever: "transaction (Fn nests) alone single = None"
proof -
  have first: "firstAvailable single = Some 0"
    by (simp add: single_def run_defs)
  define s where "s = beginTransaction alone 0 (markInUse 0 single)"
  have none: "firstAvailable s = None"
    and full: "\<not> length (connectionPool s) < maxConnections s"
    by (simp_all add: s_def single_def run_defs)
  from none have "\<forall>k. firstAvailable (waits alone 0 k s) = None"
    by (simp add: firstAvailable_waits_alone)
  then have "checkConnection alone 0 s = None" by (rule checkConnection_never)
  with none full have "getConnection alone s = None" by (simp add: getConnection_def)
  then have "nests 0 s = None" by (simp add: nests_def transaction_def)
  with first show ?thesis
    by (simp add: transaction_def getConnection_found s_def)
qed

subsection \<open>The capacity of the pool\<close>

text \<open>
  Claim C6 says that the pool never holds more connections than its capacity. The code breaks
  this. \<open>transaction\<close> does not connect first, so on a manager of capacity 1 that is not
  connected it creates one connection and leaves it in the pool; \<open>connect\<close> then pre-warms
  \<open>min 3 1 = 1\<close> connection more without looking at what the pool holds. The pool ends
  with two connections for a capacity of one.
\<close>

theorem prewarm_exceeds_capacity:
  "map_option (\<lambda>(r, s). (r, connectionState s, length (connectionPool s),
        length (connectionPool (snd (connect True s))), maxConnections (snd (connect True s))))
     (transaction (Fn returnsOne) alone (configure 1 30000 10000 3 1000 initial))
   = Some (Returned (JNumber 1), DISCONNECTED, 1, 2, 1)"
  by (simp add: returnsOne_def run_defs)



end
